theory Spec2Isabelle
  imports Complex_Main "HOL-Library.AList" "HOL-Library.Sublist" "HOL-Library.Word"
begin

section \<open>JavaScript values used by the server\<close>

text \<open>
  A JavaScript \<^verbatim>\<open>Map\<close> keeps its entries in insertion order with unique keys:
  \<^verbatim>\<open>set\<close> on a present key replaces the value in place, on an absent key it adds the
  entry at the end; \<^verbatim>\<open>delete\<close> removes the entry; \<^verbatim>\<open>size\<close> counts the entries.
  It is modelled as an association list.  Plain objects whose fields come from the client
  (the cursor payload) are association lists from field names to values as well, the
  object spread \<^verbatim>\<open>{...o, k: v}\<close> being a \<^verbatim>\<open>set\<close> of \<open>k\<close> on a copy of \<open>o\<close>.
\<close>

type_synonym ('k, 'v) jsmap = "('k \<times> 'v) list"

definition map_has :: "('k, 'v) jsmap \<Rightarrow> 'k \<Rightarrow> bool" where
  "map_has m k = (map_of m k \<noteq> None)"

definition map_get :: "('k, 'v) jsmap \<Rightarrow> 'k \<Rightarrow> 'v option" where
  "map_get m k = map_of m k"

definition map_set :: "('k, 'v) jsmap \<Rightarrow> 'k \<Rightarrow> 'v \<Rightarrow> ('k, 'v) jsmap" where
  "map_set m k v = AList.update k v m"

definition map_delete :: "('k, 'v) jsmap \<Rightarrow> 'k \<Rightarrow> ('k, 'v) jsmap" where
  "map_delete m k = AList.delete k m"

definition map_size :: "('k, 'v) jsmap \<Rightarrow> nat" where
  "map_size m = length m"

datatype jsval = JNum int | JStr string

type_synonym jsobj = "(string, jsval) jsmap"

text \<open>
  \<^verbatim>\<open>Array.prototype.slice(start)\<close> with one integer argument: a negative start counts
  from the end and is clamped at the beginning of the array, a non-negative one is
  clamped at its length.
\<close>

definition slice_from :: "'a list \<Rightarrow> int \<Rightarrow> 'a list" where
  "slice_from xs start =
     (let len = int (length xs);
          k = (if start < 0 then max (len + start) 0 else min start len)
      in drop (nat k) xs)"

text \<open>Decimal rendering of a number inside a template literal or a string concatenation.\<close>

definition digit_char :: "nat \<Rightarrow> char" where
  "digit_char d = ''0123456789'' ! d"

fun show_nat :: "nat \<Rightarrow> string" where
  "show_nat n = (if n < 10 then [digit_char n] else show_nat (n div 10) @ [digit_char (n mod 10)])"

declare show_nat.simps [simp del]

definition show_int :: "int \<Rightarrow> string" where
  "show_int i = (if i < 0 then CHR ''-'' # show_nat (nat (- i)) else show_nat (nat i))"

text \<open>
  Strings that the server only compares, tests for emptiness or concatenates (room ids,
  connection ids, file names, user names, contents) are byte strings.  The strings whose
  length or characters it inspects (the text of an edit descriptor, the text of a chat
  message) are lists of UTF-16 code units, as \<^verbatim>\<open>length\<close> and \<^verbatim>\<open>trim\<close> see them.
\<close>

type_synonym jsstring = "16 word list"

text \<open>
  A Number is an IEEE 754 double: a finite value (given by the real number it denotes,
  the two zeros taken as one), an infinity, or NaN.  \<open>to_double\<close> rounds a real number to
  the nearest double, ties to the even significand: around \<open>x\<close> the doubles are the
  multiples of \<open>2 ^ k\<close> with \<open>k = max (\<lfloor>log\<^sub>2 \<bar>x\<bar>\<rfloor> - 52) (- 1074)\<close>, and a rounded
  magnitude of \<open>2 ^ 1024\<close> or more is an infinity.
\<close>

datatype jsnum = Num real | PInf | NInf | NaN

definition pow2 :: "int \<Rightarrow> real" where
  "pow2 k = (if 0 \<le> k then 2 ^ nat k else 1 / 2 ^ nat (- k))"

function bit_length :: "int \<Rightarrow> int" where
  "bit_length n = (if n \<le> 0 then 0 else 1 + bit_length (n div 2))"
  by pat_completeness auto
termination
  by (relation "measure nat") auto

declare bit_length.simps [simp del]

definition floor_log2 :: "real \<Rightarrow> int" where
  "floor_log2 a =
     (if 1 \<le> a then bit_length \<lfloor>a\<rfloor> - 1
      else - bit_length (\<lceil>1 / a\<rceil> - 1))"

definition round_half_even :: "real \<Rightarrow> int" where
  "round_half_even s =
     (let f = \<lfloor>s\<rfloor>; d = s - of_int f
      in if d < 1 / 2 then f else if 1 / 2 < d then f + 1 else if even f then f else f + 1)"

definition to_double :: "real \<Rightarrow> jsnum" where
  "to_double x =
     (if x = 0 then Num 0
      else (let a = \<bar>x\<bar>;
                k = max (floor_log2 a - 52) (- 1074);
                r = of_int (round_half_even (a / pow2 k)) * pow2 k
            in if 1024 \<le> floor_log2 r then (if 0 < x then PInf else NInf)
               else Num (if 0 < x then r else - r)))"

text \<open>Addition, negation, subtraction, the two comparisons and \<^verbatim>\<open>Math.min\<close> of two Numbers.\<close>

fun js_add :: "jsnum \<Rightarrow> jsnum \<Rightarrow> jsnum" where
  "js_add (Num a) (Num b) = to_double (a + b)"
| "js_add NaN y = NaN"
| "js_add x NaN = NaN"
| "js_add PInf NInf = NaN"
| "js_add NInf PInf = NaN"
| "js_add PInf y = PInf"
| "js_add x PInf = PInf"
| "js_add NInf y = NInf"
| "js_add x NInf = NInf"

fun js_neg :: "jsnum \<Rightarrow> jsnum" where
  "js_neg (Num a) = Num (- a)"
| "js_neg PInf = NInf"
| "js_neg NInf = PInf"
| "js_neg NaN = NaN"

definition js_sub :: "jsnum \<Rightarrow> jsnum \<Rightarrow> jsnum" where
  "js_sub x y = js_add x (js_neg y)"

fun js_lt :: "jsnum \<Rightarrow> jsnum \<Rightarrow> bool" where
  "js_lt (Num a) (Num b) = (a < b)"
| "js_lt NaN y = False"
| "js_lt x NaN = False"
| "js_lt x NInf = False"
| "js_lt PInf y = False"
| "js_lt NInf y = True"
| "js_lt x PInf = True"

fun js_le :: "jsnum \<Rightarrow> jsnum \<Rightarrow> bool" where
  "js_le (Num a) (Num b) = (a \<le> b)"
| "js_le NaN y = False"
| "js_le x NaN = False"
| "js_le NInf y = True"
| "js_le x PInf = True"
| "js_le x NInf = False"
| "js_le PInf y = False"

fun js_min :: "jsnum \<Rightarrow> jsnum \<Rightarrow> jsnum" where
  "js_min NaN y = NaN"
| "js_min x NaN = NaN"
| "js_min x y = (if js_le x y then x else y)"

text \<open>A field that is absent reads as \<^verbatim>\<open>undefined\<close>, which is NaN as a Number.\<close>

fun to_number :: "jsnum option \<Rightarrow> jsnum" where
  "to_number None = NaN"
| "to_number (Some x) = x"

datatype js_error = TypeError

section \<open>The Room aggregate (src/server/server.js, src/unnamed/part_000)\<close>

record room_file =
  file_name :: string
  file_content :: string
  file_language :: string

record user =
  user_id :: string
  user_username :: string
  user_color :: string
  user_joinedAt :: int
  user_cursor :: "int \<times> int"

record chat_message =
  msg_id :: string
  msg_userId :: string
  msg_username :: string
  msg_color :: string
  msg_message :: jsstring

record chat_entry = chat_message +
  msg_timestamp :: int

text \<open>
  The history entry of src/server/server.js is \<^verbatim>\<open>{timestamp, operation, content, file}\<close>;
  the one of src/unnamed/part_000 is \<^verbatim>\<open>{timestamp, content, fileName}\<close>.  The Room
  never looks inside an entry, so the record of the room is polymorphic in it.  The
  field \<^verbatim>\<open>code\<close> exists in src/server/server.js only, where the constructor sets it and
  nothing reads or writes it afterwards.
\<close>

record 'op history_entry =
  h_timestamp :: int
  h_operation :: 'op
  h_content :: string
  h_file :: string

record history_entry0 =
  h0_timestamp :: int
  h0_content :: string
  h0_fileName :: string

record 'h room =
  room_id :: string
  code :: string
  users :: "(string, user) jsmap"
  cursors :: "(string, jsobj) jsmap"
  history :: "'h list"
  files :: "(string, room_file) jsmap"
  activeFile :: string
  chat :: "chat_entry list"
  lastSaved :: int

record config =
  roomHistoryLimit :: int
  chatMessageLimit :: int

definition userColors :: "string list" where
  "userColors = [''#FF6B6B'', ''#4ECDC4'', ''#45B7D1'', ''#96CEB4'',
                 ''#FFEAA7'', ''#DDA0DD'', ''#98D8C8'', ''#F7DC6F'']"

definition welcome_text :: string where
  "welcome_text = ''// Welcome to the collaborative code editor!'' @ [CHR 0x0A]
     @ ''// Start typing to see real-time collaboration in action'' @ [CHR 0x0A, CHR 0x0A]
     @ ''console.log('' @ [CHR 0x22] @ ''Hello, World!'' @ [CHR 0x22] @ '');''"

text \<open>The constructor; \<open>now\<close> is the value of \<^verbatim>\<open>Date.now()\<close>.\<close>

definition Room :: "string \<Rightarrow> int \<Rightarrow> 'h room" where
  "Room rid now =
     \<lparr> room_id = rid, code = [], users = [], cursors = [], history = [],
       files = map_set [] ''main.js''
                 \<lparr> file_name = ''main.js'', file_content = welcome_text,
                   file_language = ''javascript'' \<rparr>,
       activeFile = ''main.js'', chat = [], lastSaved = now \<rparr>"

text \<open>
  \<^verbatim>\<open>username || `User${this.users.size + 1}`\<close>: an absent or empty name is falsy.
\<close>

definition addUser :: "'h room \<Rightarrow> string \<Rightarrow> string option \<Rightarrow> int \<Rightarrow> user \<times> 'h room" where
  "addUser r socketId username now =
     (let colorIndex = map_size (users r) mod length userColors;
          u = \<lparr> user_id = socketId,
                user_username =
                  (case username of
                     Some n \<Rightarrow> if n \<noteq> [] then n else ''User'' @ show_nat (map_size (users r) + 1)
                   | None \<Rightarrow> ''User'' @ show_nat (map_size (users r) + 1)),
                user_color = userColors ! colorIndex,
                user_joinedAt = now,
                user_cursor = (0, 0) \<rparr>
      in (u, r\<lparr>users := map_set (users r) socketId u\<rparr>))"

definition removeUser :: "'h room \<Rightarrow> string \<Rightarrow> 'h room" where
  "removeUser r socketId =
     r\<lparr>users := map_delete (users r) socketId,
       cursors := map_delete (cursors r) socketId\<rparr>"

text \<open>
  \<^verbatim>\<open>updateCode(content, operation)\<close> of src/server/server.js writes the active file.
\<close>

definition updateCode :: "config \<Rightarrow> 'op history_entry room \<Rightarrow> string \<Rightarrow> 'op \<Rightarrow> int
    \<Rightarrow> 'op history_entry room" where
  "updateCode cfg r content' operation now =
     (case map_get (files r) (activeFile r) of
        Some f \<Rightarrow>
          (let r1 = r\<lparr>files := map_set (files r) (activeFile r) (f\<lparr>file_content := content'\<rparr>)\<rparr>;
               r2 = r1\<lparr>history := history r1 @
                      [\<lparr> h_timestamp = now, h_operation = operation,
                         h_content = content', h_file = activeFile r1 \<rparr>]\<rparr>
           in if int (length (history r2)) > roomHistoryLimit cfg
              then r2\<lparr>history := slice_from (history r2) (- roomHistoryLimit cfg)\<rparr>
              else r2)
      | None \<Rightarrow> r)"

text \<open>
  \<^verbatim>\<open>updateCode(fileName, content)\<close> of src/unnamed/part_000 writes the named file and
  keeps the last 1000 entries.
\<close>

definition updateCode0 :: "history_entry0 room \<Rightarrow> string \<Rightarrow> string \<Rightarrow> int
    \<Rightarrow> history_entry0 room" where
  "updateCode0 r fileName content' now =
     (case map_get (files r) fileName of
        Some f \<Rightarrow>
          (let r1 = r\<lparr>files := map_set (files r) fileName (f\<lparr>file_content := content'\<rparr>)\<rparr>;
               r2 = r1\<lparr>history := history r1 @
                      [\<lparr> h0_timestamp = now, h0_content = content', h0_fileName = fileName \<rparr>]\<rparr>
           in if length (history r2) > 1000
              then r2\<lparr>history := slice_from (history r2) (- 1000)\<rparr>
              else r2)
      | None \<Rightarrow> r)"

definition updateCursor :: "'h room \<Rightarrow> string \<Rightarrow> jsobj \<Rightarrow> int \<Rightarrow> 'h room" where
  "updateCursor r socketId cursor now =
     r\<lparr>cursors := map_set (cursors r) socketId
         (map_set (map_set cursor ''userId'' (JStr socketId)) ''timestamp'' (JNum now))\<rparr>"

text \<open>
  \<^verbatim>\<open>addChatMessage\<close>; the limit is \<^verbatim>\<open>config.chatMessageLimit\<close> in src/server/server.js
  and the constant 100 in src/unnamed/part_000.
\<close>

definition addChatMessage :: "int \<Rightarrow> 'h room \<Rightarrow> chat_message \<Rightarrow> int \<Rightarrow> 'h room" where
  "addChatMessage limit r message now =
     (let r1 = r\<lparr>chat := chat r @ [chat_message.extend message \<lparr>msg_timestamp = now\<rparr>]\<rparr>
      in if int (length (chat r1)) > limit
         then r1\<lparr>chat := slice_from (chat r1) (- limit)\<rparr>
         else r1)"

definition switchFile :: "'h room \<Rightarrow> string \<Rightarrow> room_file option \<times> 'h room" where
  "switchFile r fileName =
     (if map_has (files r) fileName
      then (map_get (files r) fileName, r\<lparr>activeFile := fileName\<rparr>)
      else (None, r))"

text \<open>
  \<^verbatim>\<open>createFile(fileName, content = '', language = 'javascript')\<close>: an argument that is
  \<^verbatim>\<open>undefined\<close> (\<open>None\<close>) takes its default.  The result \<open>None\<close> is the \<^verbatim>\<open>null\<close> returned
  for a name that is taken.
\<close>

definition createFile :: "'h room \<Rightarrow> string \<Rightarrow> string option \<Rightarrow> string option
    \<Rightarrow> room_file option \<times> 'h room" where
  "createFile r fileName content' language =
     (if \<not> map_has (files r) fileName
      then (let f = \<lparr> file_name = fileName,
                       file_content = (case content' of Some c \<Rightarrow> c | None \<Rightarrow> []),
                       file_language = (case language of Some l \<Rightarrow> l | None \<Rightarrow> ''javascript'') \<rparr>
            in (Some f, r\<lparr>files := map_set (files r) fileName f\<rparr>))
      else (None, r))"

definition deleteFile :: "'h room \<Rightarrow> string \<Rightarrow> bool \<times> 'h room" where
  "deleteFile r fileName =
     (if fileName \<noteq> ''main.js'' \<and> map_has (files r) fileName
      then (let r1 = r\<lparr>files := map_delete (files r) fileName\<rparr>
            in (True, if activeFile r1 = fileName then r1\<lparr>activeFile := ''main.js''\<rparr> else r1))
      else (False, r))"

text \<open>
  The methods that both files share word for word, as one operation type; a run of a
  Room applies them in sequence and drops the values they return.
\<close>

datatype room_method =
    AddUser string "string option" int
  | RemoveUser string
  | UpdateCursor string jsobj int
  | AddChatMessage chat_message int
  | SwitchFile string
  | CreateFile string "string option" "string option"
  | DeleteFile string

fun apply_method :: "int \<Rightarrow> 'h room \<Rightarrow> room_method \<Rightarrow> 'h room" where
  "apply_method limit r (AddUser s n t) = snd (addUser r s n t)"
| "apply_method limit r (RemoveUser s) = removeUser r s"
| "apply_method limit r (UpdateCursor s c t) = updateCursor r s c t"
| "apply_method limit r (AddChatMessage m t) = addChatMessage limit r m t"
| "apply_method limit r (SwitchFile f) = snd (switchFile r f)"
| "apply_method limit r (CreateFile f c l) = snd (createFile r f c l)"
| "apply_method limit r (DeleteFile f) = snd (deleteFile r f)"

datatype 'op room_op = Method room_method | UpdateCode string 'op int

fun apply_op :: "config \<Rightarrow> 'op history_entry room \<Rightarrow> 'op room_op \<Rightarrow> 'op history_entry room" where
  "apply_op cfg r (Method m) = apply_method (chatMessageLimit cfg) r m"
| "apply_op cfg r (UpdateCode c operation t) = updateCode cfg r c operation t"

datatype room_op0 = Method0 room_method | UpdateCode0 string string int

fun apply_op0 :: "history_entry0 room \<Rightarrow> room_op0 \<Rightarrow> history_entry0 room" where
  "apply_op0 r (Method0 m) = apply_method 100 r m"
| "apply_op0 r (UpdateCode0 f c t) = updateCode0 r f c t"

section \<open>Operation transform and replay (src/server/server.js)\<close>

text \<open>
  An edit descriptor with the fields that \<^verbatim>\<open>transformOperation\<close> reads.  Each of them may
  be absent (\<open>None\<close>); one that is present has the type the client gives it: a string for
  \<^verbatim>\<open>type\<close> and \<^verbatim>\<open>text\<close>, a Number for the others.
\<close>

record edit_op =
  op_type :: "string option"
  op_position :: "jsnum option"
  op_text :: "jsstring option"
  op_length :: "jsnum option"
  op_timestamp :: "jsnum option"

text \<open>
  The loop of \<^verbatim>\<open>transformOperation\<close>: \<open>ts\<close> is \<^verbatim>\<open>op.timestamp\<close> of the incoming
  descriptor, which the loop never changes, and \<open>transformedOp\<close> the copy it adjusts.
  Reading \<^verbatim>\<open>otherOp.text.length\<close> throws a TypeError when the prior has no text, and
  the exception ends the call.
\<close>

fun transform_loop :: "jsnum option \<Rightarrow> edit_op \<Rightarrow> edit_op list \<Rightarrow> js_error + edit_op" where
  "transform_loop ts transformedOp [] = Inr transformedOp"
| "transform_loop ts transformedOp (otherOp # otherOps) =
     (if js_lt (to_number (op_timestamp otherOp)) (to_number ts) then
        (if op_type otherOp = Some ''insert'' \<and>
            js_le (to_number (op_position otherOp)) (to_number (op_position transformedOp))
         then (case op_text otherOp of
                 None \<Rightarrow> Inl TypeError
               | Some text' \<Rightarrow>
                   transform_loop ts
                     (transformedOp\<lparr>op_position :=
                        Some (js_add (to_number (op_position transformedOp))
                                (Num (of_nat (length text'))))\<rparr>)
                     otherOps)
         else if op_type otherOp = Some ''delete'' \<and>
            js_lt (to_number (op_position otherOp)) (to_number (op_position transformedOp))
         then transform_loop ts
                (transformedOp\<lparr>op_position :=
                   Some (js_sub (to_number (op_position transformedOp))
                           (js_min (to_number (op_length otherOp))
                              (js_sub (to_number (op_position transformedOp))
                                 (to_number (op_position otherOp)))))\<rparr>)
                otherOps
         else transform_loop ts transformedOp otherOps)
      else transform_loop ts transformedOp otherOps)"

definition transformOperation :: "edit_op \<Rightarrow> edit_op list \<Rightarrow> js_error + edit_op" where
  "transformOperation op otherOps = transform_loop (op_timestamp op) op otherOps"

text \<open>
  The reconciliation as the specification words it, in exact arithmetic on whole
  numbers: a descriptor with every field present, the position of the incoming one
  adjusted by each prior operation of the window in turn.  \<open>js_op\<close> is the descriptor as
  the server receives it.  \<open>magnitude\<close> bounds every position the adjustment can pass
  through, and every difference it forms.
\<close>

record whole_op =
  w_type :: "string option"
  w_position :: int
  w_text :: jsstring
  w_length :: int
  w_timestamp :: int

definition js_op :: "whole_op \<Rightarrow> edit_op" where
  "js_op w =
     \<lparr> op_type = w_type w, op_position = Some (Num (of_int (w_position w))),
       op_text = Some (w_text w), op_length = Some (Num (of_int (w_length w))),
       op_timestamp = Some (Num (of_int (w_timestamp w))) \<rparr>"

definition reconcile_adjust :: "int \<Rightarrow> whole_op \<Rightarrow> int" where
  "reconcile_adjust pos prior =
     (if w_type prior = Some ''insert'' \<and> w_position prior \<le> pos
      then pos + int (length (w_text prior))
      else if w_type prior = Some ''delete'' \<and> w_position prior < pos
      then pos - min (w_length prior) (pos - w_position prior)
      else pos)"

definition reconcile_position :: "whole_op \<Rightarrow> whole_op list \<Rightarrow> int" where
  "reconcile_position incoming window =
     foldl (\<lambda>pos prior. if w_timestamp prior < w_timestamp incoming
                         then reconcile_adjust pos prior else pos)
       (w_position incoming) window"

definition magnitude :: "whole_op \<Rightarrow> whole_op list \<Rightarrow> int" where
  "magnitude incoming window =
     \<bar>w_position incoming\<bar> +
     sum_list (map (\<lambda>w. \<bar>w_position w\<bar> + \<bar>w_length w\<bar> + int (length (w_text w))) window)"

text \<open>
  \<^verbatim>\<open>x || d\<close> on an optional number: \<^verbatim>\<open>undefined\<close> (\<open>None\<close>) and \<open>0\<close> are falsy.
\<close>

definition js_or :: "int option \<Rightarrow> int \<Rightarrow> int" where
  "js_or x d = (case x of Some v \<Rightarrow> if v \<noteq> 0 then v else d | None \<Rightarrow> d)"

text \<open>The filter of the \<^verbatim>\<open>get-replay\<close> handler; \<open>now\<close> is \<^verbatim>\<open>Date.now()\<close>.\<close>

definition getReplay :: "'op history_entry list \<Rightarrow> int option \<Rightarrow> int option \<Rightarrow> int
    \<Rightarrow> 'op history_entry list" where
  "getReplay hist fromTimestamp toTimestamp now =
     filter (\<lambda>e. h_timestamp e \<ge> js_or fromTimestamp 0 \<and> h_timestamp e \<le> js_or toTimestamp now)
       hist"

section \<open>The session gateway (src/server/server.js)\<close>

text \<open>
  Each connection owns the two variables \<^verbatim>\<open>currentRoom\<close> and \<^verbatim>\<open>currentUser\<close> of its
  closure, \<^verbatim>\<open>null\<close> being \<open>None\<close>.  The registry \<^verbatim>\<open>rooms\<close> is shared.  A handler that
  throws does so before it changes anything, and leaves the state as it was before the
  event.  Every event reads the clock once.  What the handlers emit, and the broadcast
  groups of the socket library (\<^verbatim>\<open>socket.join\<close>, \<^verbatim>\<open>socket.leave\<close>), are not part of the
  state; neither is the periodic snapshot, which writes \<^verbatim>\<open>lastSaved\<close> only.
\<close>

record session =
  currentRoom :: "string option"
  currentUser :: "user option"

text \<open>
  The operation stored with a history entry is
  \<^verbatim>\<open>{...transformedOp, userId: socket.id, username: currentUser.username}\<close>.
\<close>

record stored_op =
  so_operation :: "edit_op option"
  so_userId :: string
  so_username :: string

type_synonym server_room = "stored_op history_entry room"

record gateway =
  rooms :: "(string, server_room) jsmap"
  sessions :: "(string, session) jsmap"

definition gateway0 :: gateway where
  "gateway0 = \<lparr> rooms = [], sessions = [] \<rparr>"

datatype event =
    JoinRoom string "string option"
  | CodeChange string "edit_op option"
  | CursorChange jsobj
  | SwitchFileEv string
  | CreateFileEv string "string option"
  | DeleteFileEv string
  | ChatMessage jsstring
  | GetReplay "int option" "int option"
  | Ping
  | Disconnect

datatype input =
    Connect string
  | Event string event int
  | RestCreateFile string string "string option" "string option"

text \<open>A string variable is truthy when it is neither \<^verbatim>\<open>null\<close> nor empty.\<close>

definition truthy :: "string option \<Rightarrow> bool" where
  "truthy s = (case s of None \<Rightarrow> False | Some x \<Rightarrow> x \<noteq> [])"

definition getOrCreateRoom :: "(string, 'h room) jsmap \<Rightarrow> string \<Rightarrow> int
    \<Rightarrow> 'h room \<times> (string, 'h room) jsmap" where
  "getOrCreateRoom rs roomId now =
     (let rs1 = (if \<not> map_has rs roomId then map_set rs roomId (Room roomId now) else rs)
      in (case map_get rs1 roomId of Some r \<Rightarrow> (r, rs1) | None \<Rightarrow> (Room roomId now, rs1)))"

text \<open>
  A history entry read as \<^verbatim>\<open>otherOp\<close> has a timestamp and none of the other fields.
\<close>

definition entry_as_op :: "'op history_entry \<Rightarrow> edit_op" where
  "entry_as_op e =
     \<lparr> op_type = None, op_position = None, op_text = None, op_length = None,
       op_timestamp = Some (Num (of_int (h_timestamp e))) \<rparr>"

text \<open>
  \<^verbatim>\<open>String.prototype.trim\<close> removes the white space and the line terminators of
  ECMAScript from both ends.
\<close>

definition is_space :: "16 word \<Rightarrow> bool" where
  "is_space c =
     (c \<in> set [0x0009, 0x000A, 0x000B, 0x000C, 0x000D, 0x0020, 0x00A0, 0x1680,
                0x2000, 0x2001, 0x2002, 0x2003, 0x2004, 0x2005, 0x2006, 0x2007,
                0x2008, 0x2009, 0x200A, 0x2028, 0x2029, 0x202F, 0x205F, 0x3000, 0xFEFF])"

definition trim :: "jsstring \<Rightarrow> jsstring" where
  "trim s = rev (dropWhile is_space (rev (dropWhile is_space s)))"

definition on_join_room :: "(string, server_room) jsmap \<Rightarrow> string \<Rightarrow> string \<Rightarrow> string option
    \<Rightarrow> int \<Rightarrow> (string, server_room) jsmap \<times> session" where
  "on_join_room rs sid roomId username now =
     (let (room, rs1) = getOrCreateRoom rs roomId now;
          (u, room1) = addUser room sid username now
      in (map_set rs1 roomId room1, \<lparr> currentRoom = Some roomId, currentUser = Some u \<rparr>))"

text \<open>
  \<^verbatim>\<open>code-change\<close>: with no \<^verbatim>\<open>operation\<close> in the payload, \<^verbatim>\<open>transformOperation\<close> returns
  an empty object when the window is empty and throws on \<^verbatim>\<open>op.timestamp\<close> otherwise.
  \<open>transformedOp = None\<close> stands for a call that threw.
\<close>

definition on_code_change :: "config \<Rightarrow> (string, server_room) jsmap \<Rightarrow> session \<Rightarrow> string
    \<Rightarrow> string \<Rightarrow> edit_op option \<Rightarrow> int \<Rightarrow> (string, server_room) jsmap" where
  "on_code_change cfg rs s sid content' operation now =
     (case currentRoom s of
        None \<Rightarrow> rs
      | Some cr \<Rightarrow>
          if cr = [] then rs
          else (case map_get rs cr of
                  None \<Rightarrow> rs
                | Some room \<Rightarrow>
                    (let recentOps = slice_from (history room) (- 10);
                         transformedOp =
                           (case operation of
                              Some op \<Rightarrow>
                                (case transformOperation op (map entry_as_op recentOps) of
                                   Inr t \<Rightarrow> Some (Some t)
                                 | Inl e \<Rightarrow> None)
                            | None \<Rightarrow> if recentOps = [] then Some None else None)
                     in (case (transformedOp, currentUser s) of
                           (Some t, Some u) \<Rightarrow>
                             map_set rs cr
                               (updateCode cfg room content'
                                  \<lparr> so_operation = t, so_userId = sid,
                                    so_username = user_username u \<rparr> now)
                         | _ \<Rightarrow> rs))))"

definition on_room :: "(string, server_room) jsmap \<Rightarrow> session \<Rightarrow> (server_room \<Rightarrow> server_room)
    \<Rightarrow> (string, server_room) jsmap" where
  "on_room rs s f =
     (case currentRoom s of
        None \<Rightarrow> rs
      | Some cr \<Rightarrow>
          if cr = [] then rs
          else (case map_get rs cr of
                  None \<Rightarrow> rs
                | Some room \<Rightarrow> map_set rs cr (f room)))"

definition on_chat_message :: "config \<Rightarrow> (string, server_room) jsmap \<Rightarrow> session \<Rightarrow> string
    \<Rightarrow> jsstring \<Rightarrow> int \<Rightarrow> (string, server_room) jsmap" where
  "on_chat_message cfg rs s sid message now =
     (case currentUser s of
        None \<Rightarrow> rs
      | Some u \<Rightarrow>
          on_room rs s (\<lambda>room.
            addChatMessage (chatMessageLimit cfg) room
              \<lparr> msg_id = show_int now @ sid, msg_userId = sid,
                msg_username = user_username u, msg_color = user_color u,
                msg_message = trim message \<rparr> now))"

definition on_disconnect :: "(string, server_room) jsmap \<Rightarrow> session \<Rightarrow> string
    \<Rightarrow> (string, server_room) jsmap" where
  "on_disconnect rs s sid =
     (if truthy (currentRoom s) \<and> currentUser s \<noteq> None
      then (case currentRoom s of
              None \<Rightarrow> rs
            | Some cr \<Rightarrow>
                (case map_get rs cr of
                   None \<Rightarrow> rs
                 | Some room \<Rightarrow>
                     (let room1 = removeUser room sid
                      in if map_size (users room1) = 0 then map_delete rs cr
                         else map_set rs cr room1)))
      else rs)"

text \<open>
  One step of the server: a new connection, an event of a connected socket, or the REST
  request that creates a file.  \<open>on_room\<close> is the common prologue of the handlers that
  return unless \<^verbatim>\<open>currentRoom\<close> is set and names a room of the registry.
\<close>

fun gateway_step :: "config \<Rightarrow> gateway \<Rightarrow> input \<Rightarrow> gateway" where
  "gateway_step cfg g (Connect sid) =
     g\<lparr>sessions := map_set (sessions g) sid \<lparr> currentRoom = None, currentUser = None \<rparr>\<rparr>"
| "gateway_step cfg g (RestCreateFile rid fileName content' language) =
     (case map_get (rooms g) rid of
        None \<Rightarrow> g
      | Some room \<Rightarrow>
          g\<lparr>rooms := map_set (rooms g) rid (snd (createFile room fileName content' language))\<rparr>)"
| "gateway_step cfg g (Event sid ev now) =
     (case map_get (sessions g) sid of
        None \<Rightarrow> g
      | Some s \<Rightarrow>
          (case ev of
             JoinRoom roomId username \<Rightarrow>
               (let (rs, s1) = on_join_room (rooms g) sid roomId username now
                in g\<lparr>rooms := rs, sessions := map_set (sessions g) sid s1\<rparr>)
           | CodeChange content' operation \<Rightarrow>
               g\<lparr>rooms := on_code_change cfg (rooms g) s sid content' operation now\<rparr>
           | CursorChange cursor \<Rightarrow>
               g\<lparr>rooms := on_room (rooms g) s (\<lambda>room. updateCursor room sid cursor now)\<rparr>
           | SwitchFileEv fileName \<Rightarrow>
               g\<lparr>rooms := on_room (rooms g) s (\<lambda>room. snd (switchFile room fileName))\<rparr>
           | CreateFileEv fileName language \<Rightarrow>
               g\<lparr>rooms := on_room (rooms g) s
                           (\<lambda>room. snd (createFile room fileName (Some []) language))\<rparr>
           | DeleteFileEv fileName \<Rightarrow>
               g\<lparr>rooms := on_room (rooms g) s (\<lambda>room. snd (deleteFile room fileName))\<rparr>
           | ChatMessage message \<Rightarrow>
               g\<lparr>rooms := on_chat_message cfg (rooms g) s sid message now\<rparr>
           | GetReplay fromTimestamp toTimestamp \<Rightarrow> g
           | Ping \<Rightarrow> g
           | Disconnect \<Rightarrow>
               g\<lparr>rooms := on_disconnect (rooms g) s sid,
                 sessions := map_delete (sessions g) sid\<rparr>))"

text \<open>
  The user count of a room "at the time of the last mutation that changed the count", as
  the specification words it: \<open>count_mutation\<close> names the room whose user map an input
  mutates (\<^verbatim>\<open>addUser\<close> on join-room, \<^verbatim>\<open>removeUser\<close> on disconnect) together with the size
  of that map right after the mutation, and \<open>last_user_count\<close> keeps, for each room id,
  the most recent of these along a run.
\<close>

fun count_mutation :: "gateway \<Rightarrow> input \<Rightarrow> (string \<times> nat) option" where
  "count_mutation g (Event sid (JoinRoom roomId username) now) =
     (case map_get (sessions g) sid of
        None \<Rightarrow> None
      | Some s \<Rightarrow>
          Some (roomId,
            map_size (users (snd (addUser (fst (getOrCreateRoom (rooms g) roomId now))
                                    sid username now)))))"
| "count_mutation g (Event sid Disconnect now) =
     (case map_get (sessions g) sid of
        None \<Rightarrow> None
      | Some s \<Rightarrow>
          (case currentRoom s of
             None \<Rightarrow> None
           | Some cr \<Rightarrow>
               if cr = [] \<or> currentUser s = None then None
               else (case map_get (rooms g) cr of
                       None \<Rightarrow> None
                     | Some room \<Rightarrow> Some (cr, map_size (users (removeUser room sid))))))"
| "count_mutation g i = None"

fun last_user_count :: "config \<Rightarrow> gateway \<Rightarrow> (string \<rightharpoonup> nat) \<Rightarrow> input list
    \<Rightarrow> (string \<rightharpoonup> nat)" where
  "last_user_count cfg g lc [] = lc"
| "last_user_count cfg g lc (i # rest) =
     last_user_count cfg (gateway_step cfg g i)
       (case count_mutation g i of Some (rid, n) \<Rightarrow> lc(rid \<mapsto> n) | None \<Rightarrow> lc) rest"

text \<open>The user count of the room registered under an id, if there is one.\<close>

definition user_count :: "gateway \<Rightarrow> string \<Rightarrow> nat option" where
  "user_count g rid = map_option (\<lambda>room. map_size (users room)) (map_get (rooms g) rid)"

section \<open>Files of a room\<close>

lemma map_has_set: "map_has (map_set m k v) k' = (k' = k \<or> map_has m k')"
  by (simp add: map_has_def map_set_def update_conv')

lemma map_has_delete: "map_has (map_delete m k) k' = (k' \<noteq> k \<and> map_has m k')"
  by (simp add: map_has_def map_delete_def delete_conv')

lemma map_get_set: "map_get (map_set m k v) k' = (if k' = k then Some v else map_get m k')"
  by (simp add: map_get_def map_set_def update_conv')

lemma map_get_delete: "map_get (map_delete m k) k' = (if k' = k then None else map_get m k')"
  by (simp add: map_get_def map_delete_def delete_conv')

lemma map_has_get: "map_has m k = (map_get m k \<noteq> None)"
  by (simp add: map_has_def map_get_def)

lemma main_js_Room: "map_has (files (Room rid now)) ''main.js''"
  by (simp add: Room_def map_has_set)

lemma main_js_method:
  "map_has (files r) ''main.js'' \<Longrightarrow> map_has (files (apply_method limit r m)) ''main.js''"
  by (cases m)
     (auto simp: addUser_def removeUser_def updateCursor_def addChatMessage_def
        switchFile_def createFile_def deleteFile_def Let_def map_has_set map_has_delete)

lemma files_updateCode_has:
  "map_has (files (updateCode cfg r c operation t)) k = map_has (files r) k"
  by (auto simp: updateCode_def Let_def map_has_def map_get_def map_set_def update_conv'
        split: option.splits)

lemma files_updateCode0_has:
  "map_has (files (updateCode0 r f c t)) k = map_has (files r) k"
  by (auto simp: updateCode0_def Let_def map_has_def map_get_def map_set_def update_conv'
        split: option.splits)

lemma main_js_op:
  "map_has (files r) ''main.js'' \<Longrightarrow> map_has (files (apply_op cfg r x)) ''main.js''"
  by (cases x) (simp_all add: main_js_method files_updateCode_has)

lemma main_js_op0:
  "map_has (files r) ''main.js'' \<Longrightarrow> map_has (files (apply_op0 r x)) ''main.js''"
  by (cases x) (simp_all add: main_js_method files_updateCode0_has)

lemma main_js_run:
  "map_has (files r) ''main.js'' \<Longrightarrow> map_has (files (foldl (apply_op cfg) r xs)) ''main.js''"
  by (induction xs arbitrary: r) (simp_all add: main_js_op)

lemma main_js_run0:
  "map_has (files r) ''main.js'' \<Longrightarrow> map_has (files (foldl apply_op0 r xs)) ''main.js''"
  by (induction xs arbitrary: r) (simp_all add: main_js_op0)

text \<open>
  C1.  A room built by the constructor and then driven through any sequence of Room
  operations, the sequences of \<^verbatim>\<open>createFile\<close> and \<^verbatim>\<open>deleteFile\<close> among them, still has
  the key \<^verbatim>\<open>main.js\<close> in its file map; this holds for the Room of src/server/server.js
  and for the one of src/unnamed/part_000.
\<close>

theorem main_js_never_absent:
  "map_has (files (foldl (apply_op cfg) (Room rid now) xs)) ''main.js'' \<and>
   map_has (files (foldl apply_op0 (Room rid now) ys)) ''main.js''"
  by (simp add: main_js_run main_js_run0 main_js_Room)

lemma map_set_fresh: "\<not> map_has m k \<Longrightarrow> map_set m k v = m @ [(k, v)]"
  by (induction m) (auto simp: map_has_def map_set_def)

lemma map_delete_filter: "map_delete m k = filter (\<lambda>p. fst p \<noteq> k) m"
  by (induction m) (auto simp: map_delete_def AList.delete_eq)

lemma set_map_set: "p \<in> set (map_set m k v) \<Longrightarrow> p = (k, v) \<or> p \<in> set m"
  by (induction m) (auto simp: map_set_def split: if_splits)

lemma set_map_delete: "p \<in> set (map_delete m k) \<Longrightarrow> p \<in> set m"
  by (simp add: map_delete_def AList.delete_eq)

lemma distinct_map_set: "distinct (map fst m) \<Longrightarrow> distinct (map fst (map_set m k v))"
  by (simp add: map_set_def distinct_update)

lemma distinct_map_delete: "distinct (map fst m) \<Longrightarrow> distinct (map fst (map_delete m k))"
  by (simp add: map_delete_def distinct_delete)

lemma count_key_absent: "\<not> map_has m k \<Longrightarrow> filter (\<lambda>p. fst p = k) m = []"
  by (induction m) (auto simp: map_has_def split: if_splits)

lemma count_key_distinct:
  "distinct (map fst m) \<Longrightarrow> map_has m k \<Longrightarrow> length (filter (\<lambda>p. fst p = k) m) = 1"
proof (induction m)
  case Nil
  then show ?case by (simp add: map_has_def)
next
  case (Cons p m)
  show ?case
  proof (cases "fst p = k")
    case True
    with Cons.prems have "\<not> map_has m k"
      by (auto simp: map_has_def map_of_eq_None_iff)
    with True show ?thesis by (simp add: count_key_absent)
  next
    case False
    with Cons show ?thesis by (auto simp: map_has_def)
  qed
qed

text \<open>
  The keys of the three maps of a room stay distinct, as the keys of a Map are, so the
  length of the list is the \<^verbatim>\<open>size\<close> of the Map.
\<close>

lemma distinct_keys_method:
  assumes "distinct (map fst (files r))" and "distinct (map fst (users r))"
    and "distinct (map fst (cursors r))"
  shows "distinct (map fst (files (apply_method limit r m))) \<and>
         distinct (map fst (users (apply_method limit r m))) \<and>
         distinct (map fst (cursors (apply_method limit r m)))"
  using assms
  by (cases m)
     (auto simp: addUser_def removeUser_def updateCursor_def addChatMessage_def
        switchFile_def createFile_def deleteFile_def Let_def
        intro: distinct_map_set distinct_map_delete)

lemma distinct_keys_run:
  "distinct (map fst (files (foldl (apply_op cfg) (Room rid now) xs))) \<and>
   distinct (map fst (users (foldl (apply_op cfg) (Room rid now) xs))) \<and>
   distinct (map fst (cursors (foldl (apply_op cfg) (Room rid now) xs)))"
proof (induction xs rule: rev_induct)
  case Nil
  show ?case by (simp add: Room_def map_set_def)
next
  case (snoc x xs)
  show ?case
  proof (cases x)
    case (Method m)
    with snoc show ?thesis by (simp add: distinct_keys_method)
  next
    case (UpdateCode c operation t)
    with snoc show ?thesis
      by (auto simp: updateCode_def Let_def intro: distinct_map_set split: option.splits)
  qed
qed

text \<open>
  \<^verbatim>\<open>activeFile\<close> always names a file of the room, so the branch of \<^verbatim>\<open>updateCode\<close> in
  src/server/server.js that finds no active file is not taken in a room that the
  constructor built.
\<close>

lemma activeFile_method:
  assumes "map_has (files r) ''main.js''" and "map_has (files r) (activeFile r)"
  shows "map_has (files (apply_method limit r m)) (activeFile (apply_method limit r m))"
  using assms
  by (cases m)
     (auto simp: addUser_def removeUser_def updateCursor_def addChatMessage_def
        switchFile_def createFile_def deleteFile_def Let_def map_has_set map_has_delete)

lemma activeFile_updateCode: "activeFile (updateCode cfg r c operation t) = activeFile r"
  by (simp add: updateCode_def Let_def split: option.splits)

lemma activeFile_resolves_run:
  "map_has (files (foldl (apply_op cfg) (Room rid now) xs))
     (activeFile (foldl (apply_op cfg) (Room rid now) xs))"
proof (induction xs rule: rev_induct)
  case Nil
  show ?case by (simp add: Room_def map_has_set)
next
  case (snoc x xs)
  have "map_has (files (foldl (apply_op cfg) (Room rid now) xs)) ''main.js''"
    by (simp add: main_js_run main_js_Room)
  with snoc show ?case
    by (cases x) (simp_all add: activeFile_method activeFile_updateCode files_updateCode_has)
qed

subsection \<open>deleteFile\<close>

lemma deleteFile_rejects:
  "fileName = ''main.js'' \<or> \<not> map_has (files r) fileName \<Longrightarrow> deleteFile r fileName = (False, r)"
  by (auto simp: deleteFile_def)

lemma deleteFile_accepts:
  "fileName \<noteq> ''main.js'' \<Longrightarrow> map_has (files r) fileName \<Longrightarrow>
   deleteFile r fileName =
     (True, r\<lparr>files := map_delete (files r) fileName,
              activeFile := (if activeFile r = fileName then ''main.js'' else activeFile r)\<rparr>)"
  by (auto simp: deleteFile_def Let_def)

text \<open>
  C6.  \<^verbatim>\<open>deleteFile\<close> returns false and leaves the whole room as it was when the name is
  \<^verbatim>\<open>main.js\<close> or is not a key of the file map.  Otherwise it returns true; the new room
  is the old one with exactly the entry of that name taken out of the file map (every
  other name resolves as before) and with \<^verbatim>\<open>activeFile\<close> set to \<^verbatim>\<open>main.js\<close> when the
  deleted file was the active one, and left alone when it was not.
\<close>

theorem deleteFile_contract:
  "(fileName = ''main.js'' \<or> \<not> map_has (files r) fileName \<longrightarrow>
      deleteFile r fileName = (False, r)) \<and>
   (fileName \<noteq> ''main.js'' \<and> map_has (files r) fileName \<longrightarrow>
      fst (deleteFile r fileName) = True \<and>
      snd (deleteFile r fileName) =
        r\<lparr>files := filter (\<lambda>p. fst p \<noteq> fileName) (files r),
          activeFile := (if activeFile r = fileName then ''main.js'' else activeFile r)\<rparr> \<and>
      (\<forall>k. map_get (files (snd (deleteFile r fileName))) k =
             (if k = fileName then None else map_get (files r) k)) \<and>
      (activeFile r = fileName \<longrightarrow> activeFile (snd (deleteFile r fileName)) = ''main.js'') \<and>
      (activeFile r \<noteq> fileName \<longrightarrow> activeFile (snd (deleteFile r fileName)) = activeFile r))"
  by (auto simp add: deleteFile_rejects deleteFile_accepts map_get_delete
        map_delete_filter [symmetric])

theorem deleteFile_contract_witness:
  "deleteFile (Room ''R'' 0 :: unit room) ''main.js'' = (False, Room ''R'' 0) \<and>
   deleteFile (Room ''R'' 0 :: unit room) ''gone.js'' = (False, Room ''R'' 0) \<and>
   fst (deleteFile
     (snd (switchFile (snd (createFile (Room ''R'' 0 :: unit room) ''a.js'' None None)) ''a.js''))
     ''a.js'') = True \<and>
   activeFile (snd (deleteFile
     (snd (switchFile (snd (createFile (Room ''R'' 0 :: unit room) ''a.js'' None None)) ''a.js''))
     ''a.js'')) = ''main.js'' \<and>
   activeFile (snd (deleteFile
     (snd (createFile (Room ''R'' 0 :: unit room) ''a.js'' None None)) ''a.js'')) = ''main.js''"
  using deleteFile_contract [of "''main.js''" "Room ''R'' 0 :: unit room"]
    deleteFile_contract [of "''gone.js''" "Room ''R'' 0 :: unit room"]
    deleteFile_contract [of "''a.js''"
      "snd (switchFile (snd (createFile (Room ''R'' 0 :: unit room) ''a.js'' None None)) ''a.js'')"]
    deleteFile_contract [of "''a.js''"
      "snd (createFile (Room ''R'' 0 :: unit room) ''a.js'' None None)"]
  by (simp add: Room_def createFile_def switchFile_def map_has_def map_set_def Let_def)

subsection \<open>createFile\<close>

lemma createFile_taken: "map_has (files r) fileName \<Longrightarrow> createFile r fileName c l = (None, r)"
  by (simp add: createFile_def)

lemma createFile_fresh:
  "\<not> map_has (files r) fileName \<Longrightarrow>
   createFile r fileName c l =
     (let f = \<lparr> file_name = fileName,
                file_content = (case c of Some x \<Rightarrow> x | None \<Rightarrow> []),
                file_language = (case l of Some x \<Rightarrow> x | None \<Rightarrow> ''javascript'') \<rparr>
      in (Some f, r\<lparr>files := files r @ [(fileName, f)]\<rparr>))"
  by (simp add: createFile_def Let_def map_set_fresh)

lemma createFile_has: "map_has (files (snd (createFile r fileName c l))) fileName"
  by (simp add: createFile_def Let_def map_has_set)

lemma createFile_distinct:
  "distinct (map fst (files r)) \<Longrightarrow> distinct (map fst (files (snd (createFile r fileName c l))))"
  by (simp add: createFile_def Let_def distinct_map_set)

text \<open>
  C8.  \<^verbatim>\<open>createFile\<close> with a name that is already a key of the file map returns \<^verbatim>\<open>null\<close>
  and leaves the whole room unchanged.  With a fresh name it returns the new file and
  adds exactly that one entry, at the end of the file map; the file has the given
  content and language, or the empty content and \<^verbatim>\<open>javascript\<close> where they are not
  given.  Of two identical calls \<^verbatim>\<open>createFile("utils.js", "", "javascript")\<close> the second
  fails and changes nothing, and the file map (whose keys are distinct, as in every
  Map) then holds exactly one entry named \<^verbatim>\<open>utils.js\<close>.
\<close>

theorem createFile_contract:
  "(map_has (files r) fileName \<longrightarrow> createFile r fileName c l = (None, r)) \<and>
   (\<not> map_has (files r) fileName \<longrightarrow>
      createFile r fileName c l =
        (Some \<lparr> file_name = fileName,
                 file_content = (case c of Some x \<Rightarrow> x | None \<Rightarrow> []),
                 file_language = (case l of Some x \<Rightarrow> x | None \<Rightarrow> ''javascript'') \<rparr>,
         r\<lparr>files := files r @
               [(fileName,
                 \<lparr> file_name = fileName,
                   file_content = (case c of Some x \<Rightarrow> x | None \<Rightarrow> []),
                   file_language = (case l of Some x \<Rightarrow> x | None \<Rightarrow> ''javascript'') \<rparr>)]\<rparr>)) \<and>
   createFile (snd (createFile r ''utils.js'' (Some []) (Some ''javascript'')))
       ''utils.js'' (Some []) (Some ''javascript'') =
     (None, snd (createFile r ''utils.js'' (Some []) (Some ''javascript''))) \<and>
   (distinct (map fst (files r)) \<longrightarrow>
      length (filter (\<lambda>p. fst p = ''utils.js'')
        (files (snd (createFile (snd (createFile r ''utils.js'' (Some []) (Some ''javascript'')))
           ''utils.js'' (Some []) (Some ''javascript''))))) = 1)"
proof -
  let ?r1 = "snd (createFile r ''utils.js'' (Some []) (Some ''javascript''))"
  have second: "createFile ?r1 ''utils.js'' (Some []) (Some ''javascript'') = (None, ?r1)"
    by (rule createFile_taken) (rule createFile_has)
  have one: "length (filter (\<lambda>p. fst p = ''utils.js'') (files ?r1)) = 1"
    if "distinct (map fst (files r))"
    using that by (intro count_key_distinct createFile_distinct createFile_has)
  show ?thesis
    using second one by (simp add: createFile_taken createFile_fresh Let_def)
qed

theorem createFile_contract_witness:
  "createFile (Room ''R'' 0 :: unit room) ''main.js'' None None = (None, Room ''R'' 0) \<and>
   fst (createFile (Room ''R'' 0 :: unit room) ''utils.js'' None None) =
     Some \<lparr> file_name = ''utils.js'', file_content = [], file_language = ''javascript'' \<rparr> \<and>
   length (filter (\<lambda>p. fst p = ''utils.js'')
     (files (snd (createFile (snd (createFile (Room ''R'' 0 :: unit room) ''utils.js''
       (Some []) (Some ''javascript''))) ''utils.js'' (Some []) (Some ''javascript''))))) = 1"
  using createFile_contract [of "Room ''R'' 0 :: unit room" "''main.js''" None None]
    createFile_contract [of "Room ''R'' 0 :: unit room" "''utils.js''" None None]
  by (simp add: Room_def map_has_def map_set_def)

section \<open>Users and cursors\<close>

lemma show_nat_digit: "n < 10 \<Longrightarrow> show_nat n = [digit_char n]"
  by (simp add: show_nat.simps)

lemma addUser_fst:
  "fst (addUser r sid username now) =
     \<lparr> user_id = sid,
       user_username =
         (case username of
            Some n \<Rightarrow> if n \<noteq> [] then n else ''User'' @ show_nat (map_size (users r) + 1)
          | None \<Rightarrow> ''User'' @ show_nat (map_size (users r) + 1)),
       user_color = userColors ! (map_size (users r) mod length userColors),
       user_joinedAt = now, user_cursor = (0, 0) \<rparr>"
  by (simp add: addUser_def Let_def)

lemma addUser_snd:
  "snd (addUser r sid username now) =
     r\<lparr>users := map_set (users r) sid (fst (addUser r sid username now))\<rparr>"
  by (simp add: addUser_def Let_def)

lemma map_size_set_one: "map_size (map_set [] k v) = 1"
  by (simp add: map_size_def map_set_def)

text \<open>
  C9.  The palette has 8 entries.  \<^verbatim>\<open>addUser\<close> gives the new user the colour at index
  (number of users in the room before the insertion) mod 8, and the requested name when
  it is non-empty; an absent or empty name becomes \<^verbatim>\<open>User\<close> followed by the decimal
  numeral of that number plus one.  The user is stored under the connection id.  In a
  room without users, Alice joining and then Bob gives Alice the first colour of the
  palette and Bob the second, and a nameless first user is called \<^verbatim>\<open>User1\<close>.
\<close>

theorem addUser_contract:
  "length userColors = 8 \<and>
   user_color (fst (addUser r sid username now)) = userColors ! (map_size (users r) mod 8) \<and>
   (\<forall>n. username = Some n \<and> n \<noteq> [] \<longrightarrow> user_username (fst (addUser r sid username now)) = n) \<and>
   (username = None \<or> username = Some [] \<longrightarrow>
      user_username (fst (addUser r sid username now)) =
        ''User'' @ show_nat (map_size (users r) + 1)) \<and>
   map_get (users (snd (addUser r sid username now))) sid = Some (fst (addUser r sid username now)) \<and>
   (users r = [] \<longrightarrow>
      user_color (fst (addUser r a (Some ''Alice'') t1)) = userColors ! 0 \<and>
      user_color (fst (addUser (snd (addUser r a (Some ''Alice'') t1)) b (Some ''Bob'') t2)) =
        userColors ! 1 \<and>
      user_username (fst (addUser r a None t1)) = ''User1'')"
proof -
  have stored: "map_get (users (snd (addUser r sid username now))) sid =
      Some (fst (addUser r sid username now))"
    by (simp add: addUser_snd map_get_set)
  have example: "user_color (fst (addUser r a (Some ''Alice'') t1)) = userColors ! 0 \<and>
      user_color (fst (addUser (snd (addUser r a (Some ''Alice'') t1)) b (Some ''Bob'') t2)) =
        userColors ! 1 \<and>
      user_username (fst (addUser r a None t1)) = ''User1''" if "users r = []"
    using that
    by (simp add: addUser_fst addUser_snd userColors_def map_size_def map_set_def
          show_nat_digit digit_char_def)
  have rest: "length userColors = 8 \<and>
      user_color (fst (addUser r sid username now)) = userColors ! (map_size (users r) mod 8) \<and>
      (\<forall>n. username = Some n \<and> n \<noteq> [] \<longrightarrow>
         user_username (fst (addUser r sid username now)) = n) \<and>
      (username = None \<or> username = Some [] \<longrightarrow>
         user_username (fst (addUser r sid username now)) =
           ''User'' @ show_nat (map_size (users r) + 1))"
    by (auto simp add: addUser_fst userColors_def)
  from stored example rest show ?thesis by blast
qed

theorem addUser_contract_witness:
  "user_color (fst (addUser (Room ''ABC123'' 0 :: unit room) ''s1'' (Some ''Alice'') 1)) = ''#FF6B6B'' \<and>
   user_color (fst (addUser (snd (addUser (Room ''ABC123'' 0 :: unit room) ''s1'' (Some ''Alice'') 1))
      ''s2'' (Some ''Bob'') 2)) = ''#4ECDC4'' \<and>
   user_username (fst (addUser (Room ''ABC123'' 0 :: unit room) ''s1'' (Some ''Alice'') 1)) = ''Alice'' \<and>
   user_username (fst (addUser (Room ''ABC123'' 0 :: unit room) ''s1'' (Some []) 1)) = ''User1'' \<and>
   user_username (fst (addUser (Room ''ABC123'' 0 :: unit room) ''s1'' None 1)) = ''User1''"
  using addUser_contract [of "Room ''ABC123'' 0 :: unit room" "''s1''" "Some ''Alice''" 1 "''s1''" 1 "''s2''" 2]
    addUser_contract [of "Room ''ABC123'' 0 :: unit room" "''s1''" "Some []" 1 "''s1''" 1 "''s2''" 2]
    addUser_contract [of "Room ''ABC123'' 0 :: unit room" "''s1''" "None" 1 "''s1''" 1 "''s2''" 2]
  by (simp add: Room_def userColors_def show_nat_digit digit_char_def map_size_def map_set_def)


lemma cursors_method:
  "(k, e) \<in> set (cursors (apply_method limit r m)) \<Longrightarrow>
   (k, e) \<in> set (cursors r) \<or>
   (\<exists>c t. m = UpdateCursor k c t \<and>
          e = map_set (map_set c ''userId'' (JStr k)) ''timestamp'' (JNum t))"
  by (cases m)
     (auto simp: addUser_def removeUser_def updateCursor_def addChatMessage_def
        switchFile_def createFile_def deleteFile_def Let_def
        dest: set_map_set set_map_delete split: if_splits)

lemma cursors_updateCode: "cursors (updateCode cfg r c operation t) = cursors r"
  by (simp add: updateCode_def Let_def split: option.splits)

lemma cursors_updateCode0: "cursors (updateCode0 r f c t) = cursors r"
  by (simp add: updateCode0_def Let_def split: option.splits)

lemma cursors_run:
  "(k, e) \<in> set (cursors (foldl (apply_op cfg) r xs)) \<Longrightarrow>
   (k, e) \<in> set (cursors r) \<or>
   (\<exists>c t. Method (UpdateCursor k c t) \<in> set xs \<and>
          e = map_set (map_set c ''userId'' (JStr k)) ''timestamp'' (JNum t))"
proof (induction xs arbitrary: r)
  case Nil
  then show ?case by simp
next
  case (Cons x xs)
  from Cons.prems have "(k, e) \<in> set (cursors (foldl (apply_op cfg) (apply_op cfg r x) xs))"
    by simp
  from Cons.IH [OF this] show ?case
  proof
    assume "(k, e) \<in> set (cursors (apply_op cfg r x))"
    then show ?thesis
      by (cases x) (auto simp: cursors_updateCode dest: cursors_method)
  next
    assume "\<exists>c t. Method (UpdateCursor k c t) \<in> set xs \<and>
          e = map_set (map_set c ''userId'' (JStr k)) ''timestamp'' (JNum t)"
    then show ?thesis by auto
  qed
qed

lemma cursors_run0:
  "(k, e) \<in> set (cursors (foldl apply_op0 r xs)) \<Longrightarrow>
   (k, e) \<in> set (cursors r) \<or>
   (\<exists>c t. Method0 (UpdateCursor k c t) \<in> set xs \<and>
          e = map_set (map_set c ''userId'' (JStr k)) ''timestamp'' (JNum t))"
proof (induction xs arbitrary: r)
  case Nil
  then show ?case by simp
next
  case (Cons x xs)
  from Cons.prems have "(k, e) \<in> set (cursors (foldl apply_op0 (apply_op0 r x) xs))"
    by simp
  from Cons.IH [OF this] show ?case
  proof
    assume "(k, e) \<in> set (cursors (apply_op0 r x))"
    then show ?thesis
      by (cases x) (auto simp: cursors_updateCode0 dest: cursors_method)
  next
    assume "\<exists>c t. Method0 (UpdateCursor k c t) \<in> set xs \<and>
          e = map_set (map_set c ''userId'' (JStr k)) ''timestamp'' (JNum t)"
    then show ?thesis by auto
  qed
qed

lemma stamped_fields:
  "map_get (map_set (map_set c ''userId'' (JStr k)) ''timestamp'' (JNum t)) ''userId'' = Some (JStr k) \<and>
   map_get (map_set (map_set c ''userId'' (JStr k)) ''timestamp'' (JNum t)) ''timestamp'' = Some (JNum t)"
  by (simp add: map_get_set)

lemma updateCursor_upsert:
  "map_get (cursors (updateCursor r sid c t)) k =
     (if k = sid then Some (map_set (map_set c ''userId'' (JStr sid)) ''timestamp'' (JNum t))
      else map_get (cursors r) k)"
  by (simp add: updateCursor_def map_get_set)

lemma removeUser_both:
  "map_get (cursors (removeUser r sid)) sid = None \<and> map_get (users (removeUser r sid)) sid = None"
  by (simp add: removeUser_def map_get_delete)

text \<open>
  C10.  In a room built by the constructor and driven through any sequence of Room
  operations (of src/server/server.js or of src/unnamed/part_000), every entry of the
  cursor map has a \<^verbatim>\<open>userId\<close> field equal to the connection id it is stored under and a
  \<^verbatim>\<open>timestamp\<close> field holding the clock value of the \<^verbatim>\<open>updateCursor\<close> call that wrote it:
  the entry is the payload of that call with both fields overwritten.  \<^verbatim>\<open>updateCursor\<close>
  replaces whatever was stored for the connection id, and \<^verbatim>\<open>removeUser\<close> deletes the
  cursor entry and the user of the connection id.
\<close>

theorem cursor_entries_stamped:
  "(\<forall>k e. (k, e) \<in> set (cursors (foldl (apply_op cfg) (Room rid now) xs)) \<longrightarrow>
      map_get e ''userId'' = Some (JStr k) \<and>
      (\<exists>c t. Method (UpdateCursor k c t) \<in> set xs \<and>
             map_get e ''timestamp'' = Some (JNum t) \<and>
             e = map_set (map_set c ''userId'' (JStr k)) ''timestamp'' (JNum t))) \<and>
   (\<forall>k e. (k, e) \<in> set (cursors (foldl apply_op0 (Room rid now) ys)) \<longrightarrow>
      map_get e ''userId'' = Some (JStr k) \<and>
      (\<exists>c t. Method0 (UpdateCursor k c t) \<in> set ys \<and>
             map_get e ''timestamp'' = Some (JNum t) \<and>
             e = map_set (map_set c ''userId'' (JStr k)) ''timestamp'' (JNum t))) \<and>
   map_get (cursors (updateCursor r sid c t)) sid =
     Some (map_set (map_set c ''userId'' (JStr sid)) ''timestamp'' (JNum t)) \<and>
   map_get (cursors (removeUser r sid)) sid = None \<and>
   map_get (users (removeUser r sid)) sid = None"
proof -
  have a: "map_get e ''userId'' = Some (JStr k) \<and>
      (\<exists>c t. Method (UpdateCursor k c t) \<in> set xs \<and>
             map_get e ''timestamp'' = Some (JNum t) \<and>
             e = map_set (map_set c ''userId'' (JStr k)) ''timestamp'' (JNum t))"
    if "(k, e) \<in> set (cursors (foldl (apply_op cfg) (Room rid now) xs))" for k e
    using cursors_run [OF that] stamped_fields by (fastforce simp: Room_def)
  have b: "map_get e ''userId'' = Some (JStr k) \<and>
      (\<exists>c t. Method0 (UpdateCursor k c t) \<in> set ys \<and>
             map_get e ''timestamp'' = Some (JNum t) \<and>
             e = map_set (map_set c ''userId'' (JStr k)) ''timestamp'' (JNum t))"
    if "(k, e) \<in> set (cursors (foldl apply_op0 (Room rid now) ys))" for k e
    using cursors_run0 [OF that] stamped_fields by (fastforce simp: Room_def)
  from a b show ?thesis
    by (simp add: updateCursor_upsert removeUser_both)
qed

theorem cursor_entries_stamped_witness:
  "(''s1'', [(''line'', JNum 3), (''timestamp'', JNum 7), (''userId'', JStr ''s1'')])
     \<in> set (cursors (foldl (apply_op \<lparr>roomHistoryLimit = 1000, chatMessageLimit = 100\<rparr>)
           (Room ''R'' 0 :: unit history_entry room)
           [Method (UpdateCursor ''s1''
              [(''line'', JNum 3), (''timestamp'', JNum 99), (''userId'', JStr ''evil'')] 7)])) \<and>
   map_get [(''line'', JNum 3), (''timestamp'', JNum 7), (''userId'', JStr ''s1'')] ''userId'' =
     Some (JStr ''s1'') \<and>
   map_get (cursors (removeUser (updateCursor (Room ''R'' 0 :: unit history_entry room) ''s1'' [] 7) ''s1''))
     ''s1'' = None"
proof -
  let ?e = "[(''line'', JNum 3), (''timestamp'', JNum 7), (''userId'', JStr ''s1'')]"
  let ?xs = "[Method (UpdateCursor ''s1''
              [(''line'', JNum 3), (''timestamp'', JNum 99), (''userId'', JStr ''evil'')] 7)]
              :: unit room_op list"
  let ?cfg = "\<lparr>roomHistoryLimit = 1000, chatMessageLimit = 100\<rparr>"
  have h: "(''s1'', ?e) \<in> set (cursors (foldl (apply_op ?cfg)
             (Room ''R'' 0 :: unit history_entry room) ?xs))"
    by (simp add: Room_def updateCursor_def map_set_def)
  from cursor_entries_stamped [where cfg = ?cfg and rid = "''R''" and now = 0 and xs = ?xs
      and r = "updateCursor (Room ''R'' 0 :: unit history_entry room) ''s1'' [] 7"
      and sid = "''s1''"] h
  show ?thesis by blast
qed

section \<open>Code synchronisation and the history log\<close>

lemma slice_from_neg: "0 < n \<Longrightarrow> slice_from xs (- n) = drop (length xs - nat n) xs"
  by (auto simp: slice_from_def Let_def max_def nat_diff_distrib')

lemma keep_last_append:
  "drop (length (drop (length xs - n) xs) + length es - n) (drop (length xs - n) xs @ es) =
   drop (length xs + length es - n) (xs @ es)"
  by (cases "length xs \<le> n") (auto simp: add.commute)

lemma updateCode_absent:
  "map_get (files r) (activeFile r) = None \<Longrightarrow> updateCode cfg r c operation t = r"
  by (simp add: updateCode_def)

lemma updateCode_present:
  assumes "0 < roomHistoryLimit cfg" and "map_get (files r) (activeFile r) = Some f"
  shows "updateCode cfg r c operation t =
     r\<lparr>files := map_set (files r) (activeFile r) (f\<lparr>file_content := c\<rparr>),
       history := drop (length (history r) + 1 - nat (roomHistoryLimit cfg))
         (history r @ [\<lparr> h_timestamp = t, h_operation = operation, h_content = c,
                         h_file = activeFile r \<rparr>])\<rparr>"
  using assms by (auto simp: updateCode_def Let_def slice_from_neg)

lemma updateCode0_absent:
  "map_get (files r) f = None \<Longrightarrow> updateCode0 r f c t = r"
  by (simp add: updateCode0_def)

lemma updateCode0_present:
  assumes "map_get (files r) fileName = Some f"
  shows "updateCode0 r fileName c t =
     r\<lparr>files := map_set (files r) fileName (f\<lparr>file_content := c\<rparr>),
       history := drop (length (history r) + 1 - 1000)
         (history r @ [\<lparr> h0_timestamp = t, h0_content = c, h0_fileName = fileName \<rparr>])\<rparr>"
  using assms slice_from_neg [of 1000 "history r @ [\<lparr> h0_timestamp = t, h0_content = c, h0_fileName = fileName \<rparr>]"]
  by (auto simp: updateCode0_def Let_def)

lemma last_drop_snoc: "0 < n \<Longrightarrow> last (drop (length xs + 1 - n) (xs @ [e])) = e"
  by (cases n) auto

text \<open>
  C7.  When the file that \<^verbatim>\<open>updateCode\<close> targets (the active file in
  src/server/server.js, the named file in src/unnamed/part_000) is not a key of the file
  map, the call returns the room exactly as it was: no content changes, no history
  entry, and no error, the function having no failing branch.  When the file exists
  (and, in src/server/server.js, the configured history limit is positive), the room
  changes in two fields only: the content of that file is replaced, every other file
  resolving as before, and one entry for this call is pushed on the history, which is
  then cut to its last limit-many entries; the pushed entry is the last of the new
  history, and below the limit the new history is the old one followed by that entry.
\<close>

theorem updateCode_contract:
  "(map_get (files r) (activeFile r) = None \<longrightarrow> updateCode cfg r c operation t = r) \<and>
   (map_get (files q) fileName = None \<longrightarrow> updateCode0 q fileName c t = q) \<and>
   (\<forall>f. 0 < roomHistoryLimit cfg \<and> map_get (files r) (activeFile r) = Some f \<longrightarrow>
      updateCode cfg r c operation t =
        r\<lparr>files := map_set (files r) (activeFile r) (f\<lparr>file_content := c\<rparr>),
          history := drop (length (history r) + 1 - nat (roomHistoryLimit cfg))
            (history r @ [\<lparr> h_timestamp = t, h_operation = operation, h_content = c,
                            h_file = activeFile r \<rparr>])\<rparr> \<and>
      map_get (files (updateCode cfg r c operation t)) (activeFile r) =
        Some (f\<lparr>file_content := c\<rparr>) \<and>
      (\<forall>k. k \<noteq> activeFile r \<longrightarrow>
         map_get (files (updateCode cfg r c operation t)) k = map_get (files r) k) \<and>
      last (history (updateCode cfg r c operation t)) =
        \<lparr> h_timestamp = t, h_operation = operation, h_content = c, h_file = activeFile r \<rparr> \<and>
      (length (history r) < nat (roomHistoryLimit cfg) \<longrightarrow>
         history (updateCode cfg r c operation t) =
           history r @ [\<lparr> h_timestamp = t, h_operation = operation, h_content = c,
                           h_file = activeFile r \<rparr>])) \<and>
   (\<forall>f. map_get (files q) fileName = Some f \<longrightarrow>
      updateCode0 q fileName c t =
        q\<lparr>files := map_set (files q) fileName (f\<lparr>file_content := c\<rparr>),
           history := drop (length (history q) + 1 - 1000)
             (history q @ [\<lparr> h0_timestamp = t, h0_content = c, h0_fileName = fileName \<rparr>])\<rparr> \<and>
      map_get (files (updateCode0 q fileName c t)) fileName = Some (f\<lparr>file_content := c\<rparr>) \<and>
      (\<forall>k. k \<noteq> fileName \<longrightarrow>
         map_get (files (updateCode0 q fileName c t)) k = map_get (files q) k) \<and>
      last (history (updateCode0 q fileName c t)) =
        \<lparr> h0_timestamp = t, h0_content = c, h0_fileName = fileName \<rparr> \<and>
      (length (history q) < 1000 \<longrightarrow>
         history (updateCode0 q fileName c t) =
           history q @ [\<lparr> h0_timestamp = t, h0_content = c, h0_fileName = fileName \<rparr>]))"
proof -
  have a: "map_get (files r) (activeFile r) = None \<longrightarrow> updateCode cfg r c operation t = r"
    by (simp add: updateCode_absent)
  have b: "map_get (files q) fileName = None \<longrightarrow> updateCode0 q fileName c t = q"
    by (simp add: updateCode0_absent)
  have c: "updateCode cfg r c operation t =
        r\<lparr>files := map_set (files r) (activeFile r) (f\<lparr>file_content := c\<rparr>),
          history := drop (length (history r) + 1 - nat (roomHistoryLimit cfg))
            (history r @ [\<lparr> h_timestamp = t, h_operation = operation, h_content = c,
                            h_file = activeFile r \<rparr>])\<rparr> \<and>
      map_get (files (updateCode cfg r c operation t)) (activeFile r) =
        Some (f\<lparr>file_content := c\<rparr>) \<and>
      (\<forall>k. k \<noteq> activeFile r \<longrightarrow>
         map_get (files (updateCode cfg r c operation t)) k = map_get (files r) k) \<and>
      last (history (updateCode cfg r c operation t)) =
        \<lparr> h_timestamp = t, h_operation = operation, h_content = c, h_file = activeFile r \<rparr> \<and>
      (length (history r) < nat (roomHistoryLimit cfg) \<longrightarrow>
         history (updateCode cfg r c operation t) =
           history r @ [\<lparr> h_timestamp = t, h_operation = operation, h_content = c,
                           h_file = activeFile r \<rparr>])"
    if "0 < roomHistoryLimit cfg" "map_get (files r) (activeFile r) = Some f" for f
    using that by (simp add: updateCode_present map_get_set last_drop_snoc)
  have d: "updateCode0 q fileName c t =
        q\<lparr>files := map_set (files q) fileName (f\<lparr>file_content := c\<rparr>),
           history := drop (length (history q) + 1 - 1000)
             (history q @ [\<lparr> h0_timestamp = t, h0_content = c, h0_fileName = fileName \<rparr>])\<rparr> \<and>
      map_get (files (updateCode0 q fileName c t)) fileName = Some (f\<lparr>file_content := c\<rparr>) \<and>
      (\<forall>k. k \<noteq> fileName \<longrightarrow>
         map_get (files (updateCode0 q fileName c t)) k = map_get (files q) k) \<and>
      last (history (updateCode0 q fileName c t)) =
        \<lparr> h0_timestamp = t, h0_content = c, h0_fileName = fileName \<rparr> \<and>
      (length (history q) < 1000 \<longrightarrow>
         history (updateCode0 q fileName c t) =
           history q @ [\<lparr> h0_timestamp = t, h0_content = c, h0_fileName = fileName \<rparr>])"
    if "map_get (files q) fileName = Some f" for f
    using that last_drop_snoc [of 1000 "history q"]
    by (simp add: updateCode0_present map_get_set)
  from a b c d show ?thesis by blast
qed


theorem updateCode_contract_witness:
  "updateCode \<lparr>roomHistoryLimit = 1000, chatMessageLimit = 100\<rparr>
     ((Room ''R'' 0) \<lparr>activeFile := ''ghost.js''\<rparr>) ''x'' () 5 =
     (Room ''R'' 0) \<lparr>activeFile := ''ghost.js''\<rparr> \<and>
   updateCode0 (Room ''R'' 0) ''ghost.js'' ''x'' 5 = Room ''R'' 0 \<and>
   history (updateCode \<lparr>roomHistoryLimit = 1000, chatMessageLimit = 100\<rparr>
     (Room ''R'' 0) ''x'' () 5) =
     [\<lparr> h_timestamp = 5, h_operation = (), h_content = ''x'', h_file = ''main.js'' \<rparr>] \<and>
   map_get (files (updateCode0 (Room ''R'' 0) ''main.js'' ''x'' 5)) ''main.js'' =
     Some \<lparr> file_name = ''main.js'', file_content = ''x'', file_language = ''javascript'' \<rparr> \<and>
   history (updateCode0 (Room ''R'' 0) ''main.js'' ''x'' 5) =
     [\<lparr> h0_timestamp = 5, h0_content = ''x'', h0_fileName = ''main.js'' \<rparr>]"
proof -
  let ?cfg = "\<lparr>roomHistoryLimit = 1000, chatMessageLimit = 100\<rparr>"
  let ?main = "\<lparr> file_name = ''main.js'', file_content = welcome_text,
                 file_language = ''javascript'' \<rparr>"
  have absent: "map_get (files ((Room ''R'' 0 :: unit history_entry room) \<lparr>activeFile := ''ghost.js''\<rparr>))
        (activeFile ((Room ''R'' 0 :: unit history_entry room) \<lparr>activeFile := ''ghost.js''\<rparr>)) = None"
    "map_get (files (Room ''R'' 0 :: history_entry0 room)) ''ghost.js'' = None"
    by (simp_all add: Room_def map_get_def map_set_def)
  have present: "map_get (files (Room ''R'' 0 :: unit history_entry room))
        (activeFile (Room ''R'' 0 :: unit history_entry room)) = Some ?main"
    "map_get (files (Room ''R'' 0 :: history_entry0 room)) ''main.js'' = Some ?main"
    by (simp_all add: Room_def map_get_def map_set_def)
  have empty: "history (Room ''R'' 0 :: unit history_entry room) = []"
    "history (Room ''R'' 0 :: history_entry0 room) = []"
    "activeFile (Room ''R'' 0 :: unit history_entry room) = ''main.js''"
    by (simp_all add: Room_def)
  note no = updateCode_contract [where cfg = ?cfg
      and r = "(Room ''R'' 0 :: unit history_entry room) \<lparr>activeFile := ''ghost.js''\<rparr>"
      and q = "Room ''R'' 0" and fileName = "''ghost.js''" and c = "''x''" and t = 5
      and operation = "()"]
  note yes = updateCode_contract [where cfg = ?cfg
      and r = "Room ''R'' 0 :: unit history_entry room"
      and q = "Room ''R'' 0" and fileName = "''main.js''" and c = "''x''" and t = 5
      and operation = "()"]
  from no absent yes present empty show ?thesis by auto
qed

lemma history_method: "history (apply_method limit r m) = history r"
  by (cases m)
     (simp_all add: addUser_def removeUser_def updateCursor_def addChatMessage_def
        switchFile_def createFile_def deleteFile_def Let_def)

lemma history_updateCode_le:
  "0 < roomHistoryLimit cfg \<Longrightarrow> length (history r) \<le> nat (roomHistoryLimit cfg) \<Longrightarrow>
   length (history (updateCode cfg r c operation t)) \<le> nat (roomHistoryLimit cfg)"
  by (cases "map_get (files r) (activeFile r)")
     (auto simp: updateCode_absent updateCode_present)

lemma history_updateCode0_le:
  "length (history r) \<le> 1000 \<Longrightarrow> length (history (updateCode0 r f c t)) \<le> 1000"
  by (cases "map_get (files r) f")
     (auto simp: updateCode0_absent updateCode0_present)

lemma history_run_le:
  "0 < roomHistoryLimit cfg \<Longrightarrow> length (history r) \<le> nat (roomHistoryLimit cfg) \<Longrightarrow>
   length (history (foldl (apply_op cfg) r xs)) \<le> nat (roomHistoryLimit cfg)"
proof (induction xs arbitrary: r)
  case Nil
  then show ?case by simp
next
  case (Cons x xs)
  have "length (history (apply_op cfg r x)) \<le> nat (roomHistoryLimit cfg)"
    using Cons.prems by (cases x) (simp_all add: history_method history_updateCode_le)
  with Cons show ?case by simp
qed

lemma history_run0_le:
  "length (history r) \<le> 1000 \<Longrightarrow> length (history (foldl apply_op0 r xs)) \<le> 1000"
proof (induction xs arbitrary: r)
  case Nil
  then show ?case by simp
next
  case (Cons x xs)
  have "length (history (apply_op0 r x)) \<le> 1000"
    using Cons.prems by (cases x) (simp_all add: history_method history_updateCode0_le)
  with Cons show ?case by simp
qed

lemma updateCode_keeps:
  "activeFile (updateCode cfg r c operation t) = activeFile r \<and>
   map_has (files (updateCode cfg r c operation t)) k = map_has (files r) k"
  by (auto simp: updateCode_def Let_def map_has_def map_get_def map_set_def update_conv'
        split: option.splits)

lemma history_updateCode_seq:
  assumes "0 < roomHistoryLimit cfg" and "map_has (files r) (activeFile r)"
    and "length (history r) \<le> nat (roomHistoryLimit cfg)"
  shows "history (foldl (\<lambda>r (c, operation, t). updateCode cfg r c operation t) r cs) =
     drop (length (history r) + length cs - nat (roomHistoryLimit cfg))
       (history r @ map (\<lambda>(c, operation, t).
          \<lparr> h_timestamp = t, h_operation = operation, h_content = c, h_file = activeFile r \<rparr>) cs)"
  using assms(2,3)
proof (induction cs arbitrary: r)
  case Nil
  then show ?case by simp
next
  case (Cons x cs)
  obtain c operation t where x: "x = (c, operation, t)" by (cases x)
  from Cons.prems obtain f where f: "map_get (files r) (activeFile r) = Some f"
    by (auto simp: map_has_get)
  let ?e = "\<lparr> h_timestamp = t, h_operation = operation, h_content = c, h_file = activeFile r \<rparr>"
  let ?r1 = "updateCode cfg r c operation t"
  let ?n = "nat (roomHistoryLimit cfg)"
  let ?es = "map (\<lambda>(c, operation, t).
          \<lparr> h_timestamp = t, h_operation = operation, h_content = c, h_file = activeFile r \<rparr>) cs"
  have h1: "history ?r1 = drop (length (history r @ [?e]) - ?n) (history r @ [?e])"
    using assms(1) f by (simp add: updateCode_present)
  have "map_has (files ?r1) (activeFile ?r1)"
    using Cons.prems by (simp add: updateCode_keeps)
  moreover have "length (history ?r1) \<le> ?n"
    using assms(1) Cons.prems by (simp add: history_updateCode_le)
  ultimately
  have "history (foldl (\<lambda>r (c, operation, t). updateCode cfg r c operation t) ?r1 cs) =
      drop (length (history ?r1) + length ?es - ?n) (history ?r1 @ ?es)"
    using Cons.IH [of ?r1] by (simp add: updateCode_keeps)
  also have "\<dots> = drop (length (history r @ [?e]) + length ?es - ?n) ((history r @ [?e]) @ ?es)"
    unfolding h1 by (rule keep_last_append)
  finally show ?case by (simp add: x)
qed

lemma updateCode0_keeps:
  "map_has (files (updateCode0 r f c t)) k = map_has (files r) k"
  by (auto simp: updateCode0_def Let_def map_has_def map_get_def map_set_def update_conv'
        split: option.splits)

lemma history_updateCode0_seq:
  assumes "\<forall>x \<in> set cs. map_has (files r) (fst x)" and "length (history r) \<le> 1000"
  shows "history (foldl (\<lambda>r (f, c, t). updateCode0 r f c t) r cs) =
     drop (length (history r) + length cs - 1000)
       (history r @ map (\<lambda>(f, c, t).
          \<lparr> h0_timestamp = t, h0_content = c, h0_fileName = f \<rparr>) cs)"
  using assms
proof (induction cs arbitrary: r)
  case Nil
  then show ?case by simp
next
  case (Cons x cs)
  obtain fn c t where x: "x = (fn, c, t)" by (cases x)
  from Cons.prems x obtain f where f: "map_get (files r) fn = Some f"
    by (auto simp: map_has_get)
  let ?e = "\<lparr> h0_timestamp = t, h0_content = c, h0_fileName = fn \<rparr>"
  let ?r1 = "updateCode0 r fn c t"
  let ?es = "map (\<lambda>(f, c, t). \<lparr> h0_timestamp = t, h0_content = c, h0_fileName = f \<rparr>) cs"
  have h1: "history ?r1 = drop (length (history r @ [?e]) - 1000) (history r @ [?e])"
    using f by (simp add: updateCode0_present)
  have "\<forall>x \<in> set cs. map_has (files ?r1) (fst x)"
    using Cons.prems by (simp add: updateCode0_keeps)
  moreover have "length (history ?r1) \<le> 1000"
    using Cons.prems by (simp add: history_updateCode0_le)
  ultimately
  have "history (foldl (\<lambda>r (f, c, t). updateCode0 r f c t) ?r1 cs) =
      drop (length (history ?r1) + length ?es - 1000) (history ?r1 @ ?es)"
    using Cons.IH [of ?r1] by simp
  also have "\<dots> = drop (length (history r @ [?e]) + length ?es - 1000) ((history r @ [?e]) @ ?es)"
    unfolding h1 by (rule keep_last_append)
  finally show ?case by (simp add: x)
qed


text \<open>
  C3.  With a positive configured limit, the history of a room built by the constructor
  never has more entries than the limit, after any sequence of Room operations (for
  src/unnamed/part_000 the limit is the constant 1000).  A sequence of \<^verbatim>\<open>updateCode\<close>
  calls on an existing file, started in a room whose history is within the limit,
  leaves exactly the last limit-many entries of the old history followed by one entry
  per call, in the order of arrival.  From a fresh room, 1005 calls under a limit of
  1000 leave the entries of the last 1000 calls: the first 5 are gone.
\<close>

theorem history_cap:
  "(0 < roomHistoryLimit cfg \<longrightarrow>
      int (length (history (foldl (apply_op cfg) (Room rid now) xs))) \<le> roomHistoryLimit cfg) \<and>
   length (history (foldl apply_op0 (Room rid now) ys)) \<le> 1000 \<and>
   (0 < roomHistoryLimit cfg \<and> map_has (files r) (activeFile r) \<and>
    int (length (history r)) \<le> roomHistoryLimit cfg \<longrightarrow>
      history (foldl (\<lambda>r (c, operation, t). updateCode cfg r c operation t) r cs) =
        drop (length (history r) + length cs - nat (roomHistoryLimit cfg))
          (history r @ map (\<lambda>(c, operation, t).
             \<lparr> h_timestamp = t, h_operation = operation, h_content = c,
               h_file = activeFile r \<rparr>) cs)) \<and>
   ((\<forall>x \<in> set ds. map_has (files q) (fst x)) \<and> length (history q) \<le> 1000 \<longrightarrow>
      history (foldl (\<lambda>r (f, c, t). updateCode0 r f c t) q ds) =
        drop (length (history q) + length ds - 1000)
          (history q @ map (\<lambda>(f, c, t).
             \<lparr> h0_timestamp = t, h0_content = c, h0_fileName = f \<rparr>) ds)) \<and>
   (roomHistoryLimit cfg = 1000 \<and> length cs = 1005 \<longrightarrow>
      history (foldl (\<lambda>r (c, operation, t). updateCode cfg r c operation t) (Room rid now) cs) =
        drop 5 (map (\<lambda>(c, operation, t).
             \<lparr> h_timestamp = t, h_operation = operation, h_content = c,
               h_file = ''main.js'' \<rparr>) cs)) \<and>
   (length ds = 1005 \<and> (\<forall>x \<in> set ds. fst x = ''main.js'') \<longrightarrow>
      history (foldl (\<lambda>r (f, c, t). updateCode0 r f c t) (Room rid now) ds) =
        drop 5 (map (\<lambda>(f, c, t).
             \<lparr> h0_timestamp = t, h0_content = c, h0_fileName = f \<rparr>) ds))"
proof -
  have a: "int (length (history (foldl (apply_op cfg) (Room rid now) xs))) \<le> roomHistoryLimit cfg"
    if "0 < roomHistoryLimit cfg"
    using history_run_le [OF that, of "Room rid now" xs] that by (simp add: Room_def)
  have b: "length (history (foldl apply_op0 (Room rid now) ys)) \<le> 1000"
    by (rule history_run0_le) (simp add: Room_def)
  have c: "history (foldl (\<lambda>r (c, operation, t). updateCode cfg r c operation t) r cs) =
        drop (length (history r) + length cs - nat (roomHistoryLimit cfg))
          (history r @ map (\<lambda>(c, operation, t).
             \<lparr> h_timestamp = t, h_operation = operation, h_content = c,
               h_file = activeFile r \<rparr>) cs)"
    if "0 < roomHistoryLimit cfg" "map_has (files r) (activeFile r)"
      "int (length (history r)) \<le> roomHistoryLimit cfg" for r
    using that by (intro history_updateCode_seq) simp_all
  have d: "history (foldl (\<lambda>r (f, c, t). updateCode0 r f c t) q ds) =
        drop (length (history q) + length ds - 1000)
          (history q @ map (\<lambda>(f, c, t).
             \<lparr> h0_timestamp = t, h0_content = c, h0_fileName = f \<rparr>) ds)"
    if "\<forall>x \<in> set ds. map_has (files q) (fst x)" "length (history q) \<le> 1000" for q
    using that by (rule history_updateCode0_seq)
  have e: "history (foldl (\<lambda>r (c, operation, t). updateCode cfg r c operation t) (Room rid now) cs) =
        drop 5 (map (\<lambda>(c, operation, t).
             \<lparr> h_timestamp = t, h_operation = operation, h_content = c,
               h_file = ''main.js'' \<rparr>) cs)"
    if "roomHistoryLimit cfg = 1000" "length cs = 1005"
    using c [of "Room rid now"] that by (simp add: Room_def map_has_set)
  have f: "history (foldl (\<lambda>r (f, c, t). updateCode0 r f c t) (Room rid now) ds) =
        drop 5 (map (\<lambda>(f, c, t).
             \<lparr> h0_timestamp = t, h0_content = c, h0_fileName = f \<rparr>) ds)"
    if "length ds = 1005" "\<forall>x \<in> set ds. fst x = ''main.js''"
    using d [of "Room rid now"] that by (simp add: Room_def map_has_set)
  from a b c [of r] d [of q] e f show ?thesis by blast
qed

theorem history_cap_witness:
  "length (history (foldl (\<lambda>r (c, operation, t). updateCode
       \<lparr>roomHistoryLimit = 1000, chatMessageLimit = 100\<rparr> r c operation t)
     (Room ''R'' 0) (replicate 1005 (''x'', (), 1)))) = 1000 \<and>
   length (history (foldl (\<lambda>r (f, c, t). updateCode0 r f c t)
     (Room ''R'' 0) (replicate 1005 (''main.js'', ''x'', 1)))) = 1000 \<and>
   int (length (history (foldl (apply_op \<lparr>roomHistoryLimit = 1, chatMessageLimit = 100\<rparr>)
     (Room ''R'' 0) [UpdateCode ''a'' () 1, UpdateCode ''b'' () 2]))) \<le> 1"
proof -
  note big = history_cap [where cfg = "\<lparr>roomHistoryLimit = 1000, chatMessageLimit = 100\<rparr>"
      and cs = "replicate 1005 (''x'', (), 1)" and rid = "''R''" and now = 0
      and ds = "replicate 1005 (''main.js'', ''x'', 1)"]
  note small = history_cap [where cfg = "\<lparr>roomHistoryLimit = 1, chatMessageLimit = 100\<rparr>"
      and xs = "[UpdateCode ''a'' () 1, UpdateCode ''b'' () 2]" and rid = "''R''" and now = 0]
  have a: "length (history (foldl (\<lambda>r (c, operation, t). updateCode
       \<lparr>roomHistoryLimit = 1000, chatMessageLimit = 100\<rparr> r c operation t)
     (Room ''R'' 0) (replicate 1005 (''x'', (), 1)))) = 1000"
    using big [THEN conjunct2, THEN conjunct2, THEN conjunct2, THEN conjunct2, THEN conjunct1]
    by simp
  have b: "length (history (foldl (\<lambda>r (f, c, t). updateCode0 r f c t)
     (Room ''R'' 0) (replicate 1005 (''main.js'', ''x'', 1)))) = 1000"
    using big [THEN conjunct2, THEN conjunct2, THEN conjunct2, THEN conjunct2, THEN conjunct2]
    by simp
  have c: "int (length (history (foldl (apply_op \<lparr>roomHistoryLimit = 1, chatMessageLimit = 100\<rparr>)
     (Room ''R'' 0) [UpdateCode ''a'' () 1, UpdateCode ''b'' () 2]))) \<le> 1"
    using small [THEN conjunct1] by simp
  from a b c show ?thesis by simp
qed

section \<open>Operation transform\<close>

text \<open>
  Rounding to a double leaves a whole number of absolute value at most \<open>2 ^ 53\<close> as it
  is, so sums and differences of such numbers are exact as long as they stay in that
  range.
\<close>

lemma bit_length_nonneg: "0 \<le> bit_length n"
  by (induction n rule: bit_length.induct) (simp add: bit_length.simps)

lemma bit_length_bounds:
  "0 < n \<Longrightarrow> 2 ^ nat (bit_length n - 1) \<le> n \<and> n < 2 ^ nat (bit_length n)"
proof (induction n rule: bit_length.induct)
  case (1 n)
  show ?case
  proof (cases "n = 1")
    case True
    then show ?thesis by (simp add: bit_length.simps)
  next
    case False
    with "1.prems" have m: "0 < n div 2" by simp
    define b where "b = bit_length (n div 2)"
    from "1.IH" m "1.prems" have ih: "2 ^ nat (b - 1) \<le> n div 2" "n div 2 < 2 ^ nat b"
      by (simp_all add: b_def)
    have b1: "1 \<le> b"
      using m bit_length_nonneg [of "n div 2 div 2"] by (simp add: b_def bit_length.simps [of "n div 2"])
    have bn: "bit_length n = 1 + b"
      using "1.prems" by (simp add: b_def bit_length.simps [of n])
    have "(2::int) ^ nat b = 2 * 2 ^ nat (b - 1)"
      using b1 by (metis Suc_nat_eq_nat_zadd1 diff_add_cancel diff_ge_0_iff_ge power_Suc add.commute)
    with ih have "2 ^ nat b \<le> n" by linarith
    moreover have "n < 2 * 2 ^ nat b" using ih by linarith
    moreover have "nat (1 + b) = Suc (nat b)" using b1 by simp
    ultimately show ?thesis by (simp add: bn)
  qed
qed

lemma round_half_even_of_int: "round_half_even (of_int j) = j"
  by (simp add: round_half_even_def)

lemma to_double_of_int:
  assumes "\<bar>i\<bar> \<le> 2 ^ 53"
  shows "to_double (of_int i) = Num (of_int i)"
proof (cases "i = 0")
  case True
  then show ?thesis by (simp add: to_double_def)
next
  case False
  define m where "m = \<bar>i\<bar>"
  define e where "e = bit_length m - 1"
  have m: "0 < m" "m \<le> 2 ^ 53" using False assms by (simp_all add: m_def)
  have fl: "floor_log2 (of_int m) = e"
    using m by (simp add: floor_log2_def e_def)
  from bit_length_bounds [OF m(1)] have eb: "2 ^ nat e \<le> m" "m < 2 ^ nat (e + 1)"
    by (simp_all add: e_def)
  have e0: "0 \<le> e"
    using m bit_length_nonneg [of "m div 2"] by (simp add: e_def bit_length.simps [of m])
  have "(2::int) ^ nat e \<le> 2 ^ 53" by (rule order_trans [OF eb(1) m(2)])
  then have e53: "nat e \<le> 53" by (rule power_le_imp_le_exp [rotated]) simp
  define k where "k = max (e - 52) (- 1074)"
  have k: "k = e - 52" using e0 by (simp add: k_def)
  have rnd: "of_int (round_half_even (of_int m / pow2 k)) * pow2 k = (of_int m :: real)"
  proof (cases "k \<le> 0")
    case True
    define j where "j = m * 2 ^ nat (- k)"
    have p: "pow2 k = 1 / 2 ^ nat (- k)"
      using True by (cases "k = 0") (simp_all add: pow2_def)
    have "of_int m / pow2 k = (of_int j :: real)" by (simp add: p j_def)
    then show ?thesis by (simp add: round_half_even_of_int) (simp add: p j_def)
  next
    case False
    then have "e = 53" using k e53 e0 by linarith
    with eb m have m53: "m = 2 ^ 53" by simp
    have k1: "k = 1" using \<open>e = 53\<close> k by simp
    show ?thesis by (simp add: m53 k1 pow2_def round_half_even_def)
  qed
  have abs: "\<bar>of_int i :: real\<bar> = of_int m" by (simp add: m_def)
  have sign: "(if 0 < i then (of_int m :: real) else - of_int m) = of_int i"
    by (simp add: m_def)
  have "e < 1024" using e53 e0 by linarith
  then show ?thesis
    using False sign unfolding to_double_def abs Let_def fl k_def [symmetric] rnd
    by simp
qed


lemma js_add_int:
  "\<bar>a + b\<bar> \<le> 2 ^ 53 \<Longrightarrow> js_add (Num (of_int a)) (Num (of_int b)) = Num (of_int (a + b))"
  using to_double_of_int [of "a + b"] by simp

lemma js_sub_int:
  "\<bar>a - b\<bar> \<le> 2 ^ 53 \<Longrightarrow> js_sub (Num (of_int a)) (Num (of_int b)) = Num (of_int (a - b))"
  using to_double_of_int [of "a - b"] by (simp add: js_sub_def)

lemma js_min_int: "js_min (Num (of_int a)) (Num (of_int b)) = Num (of_int (min a b))"
  by (simp add: min_def)

lemma budget_nonneg:
  "0 \<le> sum_list (map (\<lambda>w. \<bar>w_position w\<bar> + \<bar>w_length w\<bar> + int (length (w_text w))) ws)"
  by (induction ws) simp_all

lemma transform_loop_exact:
  assumes "\<bar>pos\<bar> +
      sum_list (map (\<lambda>w. \<bar>w_position w\<bar> + \<bar>w_length w\<bar> + int (length (w_text w))) ws)
      \<le> 2 ^ 53"
  shows "transform_loop (Some (Num (of_int ts))) (t\<lparr>op_position := Some (Num (of_int pos))\<rparr>)
           (map js_op ws) =
         Inr (t\<lparr>op_position := Some (Num (of_int
           (foldl (\<lambda>pos prior. if w_timestamp prior < ts then reconcile_adjust pos prior else pos)
              pos ws)))\<rparr>)"
  using assms
proof (induction ws arbitrary: pos)
  case Nil
  then show ?case by simp
next
  case (Cons w ws)
  let ?S = "sum_list (map (\<lambda>w. \<bar>w_position w\<bar> + \<bar>w_length w\<bar> + int (length (w_text w))) ws)"
  let ?f = "\<lambda>pos prior. if w_timestamp prior < ts then reconcile_adjust pos prior else pos"
  have S: "0 \<le> ?S" by (rule budget_nonneg)
  from Cons.prems have b: "\<bar>pos\<bar> + \<bar>w_position w\<bar> + \<bar>w_length w\<bar> + int (length (w_text w)) + ?S \<le> 2 ^ 53"
    by simp
  define pos' where "pos' = ?f pos w"
  have bound': "\<bar>pos'\<bar> + ?S \<le> 2 ^ 53"
    using b S unfolding pos'_def reconcile_adjust_def by (auto simp: min_def)
  have step: "transform_loop (Some (Num (of_int ts))) (t\<lparr>op_position := Some (Num (of_int pos))\<rparr>)
           (map js_op (w # ws)) =
        transform_loop (Some (Num (of_int ts))) (t\<lparr>op_position := Some (Num (of_int pos'))\<rparr>)
           (map js_op ws)"
  proof -
    have f3: "to_double (real_of_int pos + real (length (w_text w))) =
        Num (real_of_int pos + real (length (w_text w)))"
      using to_double_of_int [of "pos + int (length (w_text w))"] b S by simp
    have sub1: "js_sub (Num (real_of_int pos)) (Num (real_of_int (w_position w))) =
        Num (real_of_int pos - real_of_int (w_position w))"
      using to_double_of_int [of "pos - w_position w"] b S by (simp add: js_sub_def)
    have f1: "js_sub (Num (real_of_int pos)) (Num (real_of_int (w_length w))) =
        Num (real_of_int pos - real_of_int (w_length w))"
      using to_double_of_int [of "pos - w_length w"] b S by (simp add: js_sub_def)
    have f2: "js_sub (Num (real_of_int pos)) (Num (real_of_int pos - real_of_int (w_position w))) =
        Num (real_of_int (w_position w))"
      using to_double_of_int [of "w_position w"] b S by (simp add: js_sub_def)
    show ?thesis
      by (simp add: js_op_def pos'_def reconcile_adjust_def f1 f2 f3 sub1 min_def)
  qed
  from Cons.IH [OF bound'] show ?case
    unfolding step by (simp add: pos'_def)
qed

lemma transformOperation_exact:
  assumes "magnitude op ws \<le> 2 ^ 53"
  shows "transformOperation (js_op op) (map js_op ws) =
     Inr ((js_op op)\<lparr>op_position := Some (Num (of_int (reconcile_position op ws)))\<rparr>)"
proof -
  have "js_op op = (js_op op)\<lparr>op_position := Some (Num (of_int (w_position op)))\<rparr>"
    by (simp add: js_op_def)
  moreover have "op_timestamp (js_op op) = Some (Num (of_int (w_timestamp op)))"
    by (simp add: js_op_def)
  ultimately show ?thesis
    using transform_loop_exact [of "w_position op" ws "w_timestamp op" "js_op op"] assms
    by (simp add: transformOperation_def reconcile_position_def magnitude_def)
qed

lemma to_double_13: "to_double 13 = Num 13"
  using to_double_of_int [of 13] by simp

lemma to_double_near_2_60: "to_double 1152921504606846975 = Num 1152921504606846976"
  by code_simp

text \<open>
  The \<^verbatim>\<open>code-change\<close> handler passes history entries as the window.  They carry no
  \<^verbatim>\<open>type\<close>, so there the descriptor comes back unchanged.
\<close>

lemma transformOperation_on_history: "transformOperation op (map entry_as_op es) = Inr op"
proof -
  have "transform_loop ts t (map entry_as_op es) = Inr t" for ts t
    by (induction es) (simp_all add: entry_as_op_def)
  then show ?thesis by (simp add: transformOperation_def)
qed

lemma to_double_0: "to_double 0 = Num 0"
  by (simp add: to_double_def)

text \<open>
  C2, as stated, fails for large numbers and for a prior without text.  Positions are
  doubles: with the incoming position \<open>2 ^ 60\<close> and an earlier delete at position 1 of
  length \<open>2 ^ 61\<close>, the difference \<open>2 ^ 60 - 1\<close> rounds to \<open>2 ^ 60\<close>, so the code
  subtracts \<open>2 ^ 60\<close> and returns position 0, below the position 1 of the delete, where
  the claim's arithmetic gives 1.  And an earlier insert at or before the incoming
  position that carries no text makes the call throw instead of returning a position.
\<close>

theorem transformOperation_double_counterexample:
  "transformOperation
     (js_op \<lparr> w_type = Some ''insert'', w_position = 2 ^ 60, w_text = [], w_length = 0,
              w_timestamp = 200 \<rparr>)
     [js_op \<lparr> w_type = Some ''delete'', w_position = 1, w_text = [], w_length = 2 ^ 61,
               w_timestamp = 100 \<rparr>] =
     Inr ((js_op \<lparr> w_type = Some ''insert'', w_position = 2 ^ 60, w_text = [], w_length = 0,
                   w_timestamp = 200 \<rparr>) \<lparr>op_position := Some (Num 0)\<rparr>) \<and>
   reconcile_position
     \<lparr> w_type = Some ''insert'', w_position = 2 ^ 60, w_text = [], w_length = 0,
       w_timestamp = 200 \<rparr>
     [\<lparr> w_type = Some ''delete'', w_position = 1, w_text = [], w_length = 2 ^ 61,
        w_timestamp = 100 \<rparr>] = 1 \<and>
   transformOperation
     (js_op \<lparr> w_type = Some ''insert'', w_position = 10, w_text = [], w_length = 0,
              w_timestamp = 200 \<rparr>)
     [\<lparr> op_type = Some ''insert'', op_position = Some (Num 5), op_text = None,
        op_length = None, op_timestamp = Some (Num 100) \<rparr>] = Inl TypeError"
  by (simp add: transformOperation_def js_op_def js_sub_def to_double_near_2_60 to_double_0
        reconcile_position_def reconcile_adjust_def)

text \<open>
  C2, amended.  Take an incoming descriptor and a window in which every field is present
  and positions, lengths and timestamps are whole numbers, and let the absolute value of
  the incoming position plus, over the window, the absolute values of position and
  length and the length of the text, be at most \<open>2 ^ 53\<close>.  Then \<^verbatim>\<open>transformOperation\<close>
  returns, without throwing, the incoming descriptor with nothing but its position
  changed, and the new position is the one the specification describes
  (\<open>reconcile_position\<close>): over the window, one prior operation at a time, a prior whose
  timestamp is not strictly below the incoming one changes nothing; an earlier insert at
  a position at most the current position adds the length of its text; an earlier
  delete at a position strictly below the current position subtracts the smaller of
  its length and the distance to the current position, so the result is never below the
  position of that delete.  For any descriptors, an incoming position 10 against one
  earlier insert at position 5 with a text of length 3 gives 13.
\<close>

theorem transformOperation_reconciles:
  "(magnitude op ws \<le> 2 ^ 53 \<longrightarrow>
      transformOperation (js_op op) (map js_op ws) =
        Inr ((js_op op)\<lparr>op_position := Some (Num (of_int (reconcile_position op ws)))\<rparr>)) \<and>
   reconcile_position op [] = w_position op \<and>
   reconcile_position op (ws @ [w]) =
     (if w_timestamp w < w_timestamp op
      then (if w_type w = Some ''insert'' \<and> w_position w \<le> reconcile_position op ws
            then reconcile_position op ws + int (length (w_text w))
            else if w_type w = Some ''delete'' \<and> w_position w < reconcile_position op ws
            then reconcile_position op ws -
                   min (w_length w) (reconcile_position op ws - w_position w)
            else reconcile_position op ws)
      else reconcile_position op ws) \<and>
   (w_timestamp w < w_timestamp op \<and> w_type w = Some ''delete'' \<and>
    w_position w < reconcile_position op ws \<longrightarrow>
      w_position w \<le> reconcile_position op (ws @ [w])) \<and>
   (\<forall>a b t. op_position a = Some (Num 10) \<and> op_type b = Some ''insert'' \<and>
      op_position b = Some (Num 5) \<and> op_text b = Some t \<and> length t = 3 \<and>
      js_lt (to_number (op_timestamp b)) (to_number (op_timestamp a)) \<longrightarrow>
      transformOperation a [b] = Inr (a\<lparr>op_position := Some (Num 13)\<rparr>))"
proof -
  have snoc: "reconcile_position op (ws @ [w]) =
     (if w_timestamp w < w_timestamp op
      then (if w_type w = Some ''insert'' \<and> w_position w \<le> reconcile_position op ws
            then reconcile_position op ws + int (length (w_text w))
            else if w_type w = Some ''delete'' \<and> w_position w < reconcile_position op ws
            then reconcile_position op ws -
                   min (w_length w) (reconcile_position op ws - w_position w)
            else reconcile_position op ws)
      else reconcile_position op ws)"
    by (simp add: reconcile_position_def reconcile_adjust_def)
  have bound: "w_position w \<le> reconcile_position op (ws @ [w])"
    if "w_timestamp w < w_timestamp op" "w_type w = Some ''delete''"
       "w_position w < reconcile_position op ws"
    using that unfolding snoc by simp
  have example: "transformOperation a [b] = Inr (a\<lparr>op_position := Some (Num 13)\<rparr>)"
    if "op_position a = Some (Num 10)" "op_type b = Some ''insert''"
       "op_position b = Some (Num 5)" "op_text b = Some t" "length t = 3"
       "js_lt (to_number (op_timestamp b)) (to_number (op_timestamp a))" for a b t
    using that by (simp add: transformOperation_def to_double_13)
  have nil: "reconcile_position op [] = w_position op"
    by (simp add: reconcile_position_def)
  from transformOperation_exact [of op ws] nil snoc bound example show ?thesis by blast
qed

theorem transformOperation_reconciles_witness:
  "transformOperation
     (js_op \<lparr> w_type = Some ''insert'', w_position = 10, w_text = [0x78], w_length = 0,
              w_timestamp = 200 \<rparr>)
     (map js_op
       [\<lparr> w_type = Some ''insert'', w_position = 5, w_text = [0x61, 0x62, 0x63], w_length = 0,
          w_timestamp = 100 \<rparr>,
        \<lparr> w_type = Some ''delete'', w_position = 2, w_text = [], w_length = 50,
          w_timestamp = 150 \<rparr>]) =
     Inr ((js_op \<lparr> w_type = Some ''insert'', w_position = 10, w_text = [0x78], w_length = 0,
                   w_timestamp = 200 \<rparr>) \<lparr>op_position := Some (Num 2)\<rparr>) \<and>
   transformOperation
     \<lparr> op_type = Some ''insert'', op_position = Some (Num 10), op_text = None,
       op_length = None, op_timestamp = Some (Num 200) \<rparr>
     [\<lparr> op_type = Some ''insert'', op_position = Some (Num 5),
        op_text = Some [0x61, 0x62, 0x63], op_length = None,
        op_timestamp = Some (Num 100) \<rparr>] =
     Inr \<lparr> op_type = Some ''insert'', op_position = Some (Num 13), op_text = None,
           op_length = None, op_timestamp = Some (Num 200) \<rparr>"
proof -
  let ?op = "\<lparr> w_type = Some ''insert'', w_position = 10, w_text = [0x78], w_length = 0,
              w_timestamp = 200 \<rparr>"
  let ?ws = "[\<lparr> w_type = Some ''insert'', w_position = 5, w_text = [0x61, 0x62, 0x63],
          w_length = 0, w_timestamp = 100 \<rparr>,
        \<lparr> w_type = Some ''delete'', w_position = 2, w_text = [], w_length = 50,
          w_timestamp = 150 \<rparr>]"
  have m: "magnitude ?op ?ws \<le> 2 ^ 53"
    by (simp add: magnitude_def)
  have r: "reconcile_position ?op ?ws = 2"
    by (simp add: reconcile_position_def reconcile_adjust_def)
  have a: "transformOperation (js_op ?op) (map js_op ?ws) =
      Inr ((js_op ?op)\<lparr>op_position := Some (Num 2)\<rparr>)"
    using transformOperation_reconciles [where op = ?op and ws = ?ws, THEN conjunct1] m r
    by simp
  have b: "transformOperation
     \<lparr> op_type = Some ''insert'', op_position = Some (Num 10), op_text = None,
       op_length = None, op_timestamp = Some (Num 200) \<rparr>
     [\<lparr> op_type = Some ''insert'', op_position = Some (Num 5),
        op_text = Some [0x61, 0x62, 0x63], op_length = None,
        op_timestamp = Some (Num 100) \<rparr>] =
     Inr \<lparr> op_type = Some ''insert'', op_position = Some (Num 13), op_text = None,
           op_length = None, op_timestamp = Some (Num 200) \<rparr>"
    using transformOperation_reconciles [THEN conjunct2, THEN conjunct2, THEN conjunct2,
        THEN conjunct2, rule_format,
        of "\<lparr> op_type = Some ''insert'', op_position = Some (Num 10), op_text = None,
             op_length = None, op_timestamp = Some (Num 200) \<rparr>"
           "\<lparr> op_type = Some ''insert'', op_position = Some (Num 5),
             op_text = Some [0x61, 0x62, 0x63], op_length = None,
             op_timestamp = Some (Num 100) \<rparr>" "[0x61, 0x62, 0x63]"]
    by simp
  from a b show ?thesis by simp
qed

section \<open>Replay\<close>

text \<open>
  C4, as stated, fails when the upper bound is 0: \<^verbatim>\<open>toTimestamp || Date.now()\<close> reads a
  bound of 0 as absent, so a request from 5 to 0 at time 20 returns the entry of
  timestamp 10 although 5 is greater than 0.
\<close>

theorem getReplay_zero_bound_counterexample:
  "(5::int) > 0 \<and>
   getReplay [\<lparr> h_timestamp = 10, h_operation = (), h_content = ''x'', h_file = ''main.js'' \<rparr>]
     (Some 5) (Some 0) 20 \<noteq> []"
  by (simp add: getReplay_def js_or_def)

text \<open>
  C4, amended.  For an upper bound other than 0, the replay is exactly the entries of
  the history whose timestamp lies between the two bounds, both included, in the order
  of the history.  An upper bound that is 0 or absent stands for the current time, and
  an absent lower bound for 0.  With an upper bound other than 0 and strictly below the
  lower bound the replay is empty.  In every case the replay is a subsequence of the
  history.
\<close>

theorem getReplay_range:
  "(t \<noteq> 0 \<longrightarrow>
      getReplay h (Some f) (Some t) now =
        filter (\<lambda>e. f \<le> h_timestamp e \<and> h_timestamp e \<le> t) h) \<and>
   getReplay h (Some f) (Some 0) now =
     filter (\<lambda>e. f \<le> h_timestamp e \<and> h_timestamp e \<le> now) h \<and>
   getReplay h (Some f) None now =
     filter (\<lambda>e. f \<le> h_timestamp e \<and> h_timestamp e \<le> now) h \<and>
   getReplay h None to now = getReplay h (Some 0) to now \<and>
   (t \<noteq> 0 \<and> t < f \<longrightarrow> getReplay h (Some f) (Some t) now = []) \<and>
   subseq (getReplay h from to now) h"
  by (auto simp: getReplay_def js_or_def filter_empty_conv)

theorem getReplay_range_witness:
  "getReplay
     [\<lparr> h_timestamp = 10, h_operation = (), h_content = ''a'', h_file = ''main.js'' \<rparr>,
      \<lparr> h_timestamp = 20, h_operation = (), h_content = ''b'', h_file = ''main.js'' \<rparr>,
      \<lparr> h_timestamp = 30, h_operation = (), h_content = ''c'', h_file = ''main.js'' \<rparr>]
     (Some 15) (Some 30) 99 =
     [\<lparr> h_timestamp = 20, h_operation = (), h_content = ''b'', h_file = ''main.js'' \<rparr>,
      \<lparr> h_timestamp = 30, h_operation = (), h_content = ''c'', h_file = ''main.js'' \<rparr>] \<and>
   getReplay
     [\<lparr> h_timestamp = 10, h_operation = (), h_content = ''a'', h_file = ''main.js'' \<rparr>,
      \<lparr> h_timestamp = 20, h_operation = (), h_content = ''b'', h_file = ''main.js'' \<rparr>,
      \<lparr> h_timestamp = 30, h_operation = (), h_content = ''c'', h_file = ''main.js'' \<rparr>]
     (Some 30) (Some 15) 99 = []"
proof -
  let ?h = "[\<lparr> h_timestamp = 10, h_operation = (), h_content = ''a'', h_file = ''main.js'' \<rparr>,
      \<lparr> h_timestamp = 20, h_operation = (), h_content = ''b'', h_file = ''main.js'' \<rparr>,
      \<lparr> h_timestamp = 30, h_operation = (), h_content = ''c'', h_file = ''main.js'' \<rparr>]"
  have a: "getReplay ?h (Some 15) (Some 30) 99 =
      filter (\<lambda>e. 15 \<le> h_timestamp e \<and> h_timestamp e \<le> 30) ?h"
    using getReplay_range [where h = ?h and f = 15 and t = 30 and now = 99, THEN conjunct1]
    by simp
  have b: "getReplay ?h (Some 30) (Some 15) 99 = []"
    using getReplay_range [where h = ?h and f = 30 and t = 15 and now = 99,
        THEN conjunct2, THEN conjunct2, THEN conjunct2, THEN conjunct2, THEN conjunct1]
    by simp
  from a b show ?thesis by simp
qed

section \<open>Registry lifecycle\<close>

lemma users_method_other:
  "users (updateCursor r sid c t) = users r"
  "users (addChatMessage limit r m t) = users r"
  "users (snd (switchFile r f)) = users r"
  "users (snd (createFile r f co l)) = users r"
  "users (snd (deleteFile r f)) = users r"
  by (simp_all add: updateCursor_def addChatMessage_def switchFile_def createFile_def
        deleteFile_def Let_def)

lemma users_updateCode: "users (updateCode cfg r c operation t) = users r"
  by (simp add: updateCode_def Let_def split: option.splits)

lemma on_room_count:
  assumes "\<And>room. users (f room) = users room"
  shows "map_option (\<lambda>room. map_size (users room)) (map_get (on_room rs s f) rid) =
         map_option (\<lambda>room. map_size (users room)) (map_get rs rid)"
  using assms by (auto simp: on_room_def map_get_set split: option.splits)

lemma on_code_change_count:
  "map_option (\<lambda>room. map_size (users room))
     (map_get (on_code_change cfg rs s sid c operation now) rid) =
   map_option (\<lambda>room. map_size (users room)) (map_get rs rid)"
  by (auto simp: on_code_change_def Let_def map_get_set users_updateCode
        split: option.splits prod.splits)

lemma on_chat_message_count:
  "map_option (\<lambda>room. map_size (users room))
     (map_get (on_chat_message cfg rs s sid m now) rid) =
   map_option (\<lambda>room. map_size (users room)) (map_get rs rid)"
  by (auto simp: on_chat_message_def on_room_count users_method_other split: option.splits)

lemma getOrCreateRoom_get:
  "getOrCreateRoom rs roomId now = (room, rs1) \<Longrightarrow>
   map_get rs1 rid = (if rid = roomId then Some room else map_get rs rid) \<and>
   (map_get rs roomId = None \<longrightarrow> room = Room roomId now) \<and>
   (\<forall>x. map_get rs roomId = Some x \<longrightarrow> room = x)"
  by (auto simp: getOrCreateRoom_def Let_def map_has_get map_get_set split: if_splits option.splits)

lemma addUser_size: "0 < map_size (users (snd (addUser r sid n t)))"
  by (simp add: addUser_def Let_def map_size_def map_set_def)

lemma user_count_join:
  assumes "map_get (sessions g) sid = Some s"
  shows "user_count (gateway_step cfg g (Event sid (JoinRoom roomId username) now)) rid =
     (if rid = roomId
      then Some (map_size (users (snd (addUser (fst (getOrCreateRoom (rooms g) roomId now))
                                  sid username now))))
      else user_count g rid)"
proof -
  obtain room rs1 where gc: "getOrCreateRoom (rooms g) roomId now = (room, rs1)"
    by (cases "getOrCreateRoom (rooms g) roomId now")
  obtain u room1 where au: "addUser room sid username now = (u, room1)"
    by (cases "addUser room sid username now")
  from getOrCreateRoom_get [OF gc, of rid] show ?thesis
    using assms gc au
    by (auto simp: user_count_def on_join_room_def map_get_set)
qed

lemma user_count_disconnect:
  assumes "map_get (sessions g) sid = Some s"
  shows "user_count (gateway_step cfg g (Event sid Disconnect now)) rid =
     (case count_mutation g (Event sid Disconnect now) of
        Some (cr, n) \<Rightarrow> if rid = cr then (if n = 0 then None else Some n) else user_count g rid
      | None \<Rightarrow> user_count g rid)"
  using assms
  by (auto simp: user_count_def on_disconnect_def truthy_def Let_def map_get_set map_get_delete
        split: option.splits)

lemma user_count_other:
  assumes "ev \<noteq> Disconnect" and "\<forall>roomId username. ev \<noteq> JoinRoom roomId username"
  shows "user_count (gateway_step cfg g (Event sid ev now)) rid = user_count g rid"
  using assms
  by (cases ev)
     (auto simp: user_count_def on_room_count on_code_change_count on_chat_message_count
        users_method_other split: option.splits)

lemma user_count_connect: "user_count (gateway_step cfg g (Connect sid)) rid = user_count g rid"
  by (simp add: user_count_def)

lemma user_count_rest:
  "user_count (gateway_step cfg g (RestCreateFile r f c l)) rid = user_count g rid"
  by (auto simp: user_count_def map_get_set users_method_other split: option.splits)


lemma count_mutation_other:
  assumes "ev \<noteq> Disconnect" and "\<forall>roomId username. ev \<noteq> JoinRoom roomId username"
  shows "count_mutation g (Event sid ev now) = None"
  using assms by (cases ev) simp_all

lemma step_no_session:
  "map_get (sessions g) sid = None \<Longrightarrow>
   gateway_step cfg g (Event sid ev now) = g \<and> count_mutation g (Event sid ev now) = None"
  by (cases ev) simp_all

lemma count_inv_step:
  assumes inv: "\<And>rid n. user_count g rid = Some n \<Longrightarrow> lc rid = Some n \<and> 0 < n"
    and inv0: "\<And>rid. user_count g rid = None \<Longrightarrow> lc rid = None \<or> lc rid = Some 0"
    and lc': "lc' = (case count_mutation g i of Some (r, n) \<Rightarrow> lc(r \<mapsto> n) | None \<Rightarrow> lc)"
  shows "(user_count (gateway_step cfg g i) rid = Some n \<longrightarrow> lc' rid = Some n \<and> 0 < n) \<and>
         (user_count (gateway_step cfg g i) rid = None \<longrightarrow> lc' rid = None \<or> lc' rid = Some 0)"
proof -
  have same: ?thesis
    if "user_count (gateway_step cfg g i) rid = user_count g rid" "count_mutation g i = None"
    using that inv [of rid n] inv0 [of rid] lc' by auto
  show ?thesis
  proof (cases i)
    case (Connect sid)
    then show ?thesis
      by (intro same) (simp_all add: user_count_connect del: gateway_step.simps)
  next
    case (RestCreateFile r f c l)
    then show ?thesis
      by (intro same) (simp_all add: user_count_rest del: gateway_step.simps)
  next
    case (Event sid ev now)
    show ?thesis
    proof (cases "map_get (sessions g) sid")
      case None
      with Event show ?thesis
        by (intro same) (simp_all add: step_no_session del: gateway_step.simps)
    next
      case (Some s)
      consider (join) roomId username where "ev = JoinRoom roomId username"
        | (disc) "ev = Disconnect"
        | (other) "ev \<noteq> Disconnect" "\<forall>roomId username. ev \<noteq> JoinRoom roomId username"
        by blast
      then show ?thesis
      proof cases
        case join
        have "lc' = lc(roomId \<mapsto> map_size (users (snd (addUser
                 (fst (getOrCreateRoom (rooms g) roomId now)) sid username now))))"
          using lc' Some by (simp add: Event join)
        then show ?thesis
          using inv [of rid n] inv0 [of rid] Some
          by (auto simp: Event join user_count_join addUser_size simp del: gateway_step.simps)
      next
        case disc
        show ?thesis
        proof (cases "count_mutation g (Event sid Disconnect now)")
          case None
          then show ?thesis
            using user_count_disconnect [OF Some, of cfg now rid]
            by (intro same) (simp_all add: Event disc del: gateway_step.simps)
        next
          case (Some p)
          obtain cr k where p: "p = (cr, k)" by (cases p)
          have "lc' = lc(cr \<mapsto> k)"
            using lc' Some by (simp add: Event disc p)
          then show ?thesis
            using inv [of rid n] inv0 [of rid] Some
              user_count_disconnect [OF \<open>map_get (sessions g) sid = Some s\<close>, of cfg now rid]
            by (auto simp: Event disc p simp del: gateway_step.simps split: if_splits)
        qed
      next
        case other
        then show ?thesis
          by (intro same)
             (simp_all add: Event user_count_other count_mutation_other
                del: gateway_step.simps)
      qed
    qed
  qed
qed

lemma count_inv_run:
  assumes "\<forall>rid n. user_count g rid = Some n \<longrightarrow> lc rid = Some n \<and> 0 < n"
    and "\<forall>rid. user_count g rid = None \<longrightarrow> lc rid = None \<or> lc rid = Some 0"
  shows "(\<forall>rid n. user_count (foldl (gateway_step cfg) g ins) rid = Some n \<longrightarrow>
            last_user_count cfg g lc ins rid = Some n \<and> 0 < n) \<and>
         (\<forall>rid. user_count (foldl (gateway_step cfg) g ins) rid = None \<longrightarrow>
            last_user_count cfg g lc ins rid = None \<or>
            last_user_count cfg g lc ins rid = Some 0)"
  using assms
proof (induction ins arbitrary: g lc)
  case Nil
  then show ?case by simp
next
  case (Cons i ins)
  let ?lc = "case count_mutation g i of Some (r, n) \<Rightarrow> lc(r \<mapsto> n) | None \<Rightarrow> lc"
  have step: "(user_count (gateway_step cfg g i) rid = Some n \<longrightarrow> ?lc rid = Some n \<and> 0 < n) \<and>
         (user_count (gateway_step cfg g i) rid = None \<longrightarrow> ?lc rid = None \<or> ?lc rid = Some 0)"
    for rid n
    using Cons.prems by (intro count_inv_step [where lc = lc]) auto
  have "(\<forall>rid n. user_count (foldl (gateway_step cfg) (gateway_step cfg g i) ins) rid = Some n \<longrightarrow>
            last_user_count cfg (gateway_step cfg g i) ?lc ins rid = Some n \<and> 0 < n) \<and>
         (\<forall>rid. user_count (foldl (gateway_step cfg) (gateway_step cfg g i) ins) rid = None \<longrightarrow>
            last_user_count cfg (gateway_step cfg g i) ?lc ins rid = None \<or>
            last_user_count cfg (gateway_step cfg g i) ?lc ins rid = Some 0)"
    using step by (intro Cons.IH) blast+
  then show ?case by simp
qed


lemma join_step:
  assumes "map_get (sessions g) sid = Some s"
  shows "\<exists>room. map_get (rooms (gateway_step cfg g (Event sid (JoinRoom roomId username) now)))
            roomId = Some room \<and> map_has (users room) sid \<and>
          (\<not> map_has (rooms g) roomId \<longrightarrow> map_size (users room) = 1)"
proof -
  obtain room rs1 where gc: "getOrCreateRoom (rooms g) roomId now = (room, rs1)"
    by (cases "getOrCreateRoom (rooms g) roomId now")
  obtain u room1 where au: "addUser room sid username now = (u, room1)"
    by (cases "addUser room sid username now")
  have "map_has (users room1) sid"
    using au by (auto simp: addUser_def Let_def map_has_set)
  moreover have "map_size (users room1) = 1" if "\<not> map_has (rooms g) roomId"
    using that getOrCreateRoom_get [OF gc, of roomId] au
    by (auto simp: addUser_def Let_def map_has_get Room_def map_size_def map_set_def)
  ultimately show ?thesis
    using assms gc au by (simp add: on_join_room_def map_get_set)
qed

lemma disconnect_step:
  assumes "map_get (sessions g) sid = Some s" and "currentRoom s = Some cr" and "cr \<noteq> []"
    and "currentUser s = Some u" and "map_get (rooms g) cr = Some room"
    and "map_size (users (removeUser room sid)) = 0"
  shows "\<not> map_has (rooms (gateway_step cfg g (Event sid Disconnect now))) cr"
  using assms by (simp add: on_disconnect_def truthy_def map_has_delete)

text \<open>
  C5.  In every state that the gateway reaches from the empty registry through any
  sequence of connections, socket events and REST requests, a room id is a key of the
  registry if and only if the user count recorded at the last \<^verbatim>\<open>addUser\<close> or \<^verbatim>\<open>removeUser\<close> on
  a room of that id is greater than zero; a room that is present has that recorded count
  as its current count, so no registered room is empty.  A join-room of a connected
  socket leaves a room under the requested id that holds the socket as a user, the only
  one when the id was unknown before.  A disconnect that removes the last user of the
  socket's current room deletes the room from the registry within the same step.
\<close>

theorem room_present_iff_users:
  "(map_has (rooms (foldl (gateway_step cfg) gateway0 ins)) rid \<longleftrightarrow>
      (\<exists>n. last_user_count cfg gateway0 Map.empty ins rid = Some n \<and> 0 < n)) \<and>
   (\<forall>room. map_get (rooms (foldl (gateway_step cfg) gateway0 ins)) rid = Some room \<longrightarrow>
      0 < map_size (users room) \<and>
      last_user_count cfg gateway0 Map.empty ins rid = Some (map_size (users room))) \<and>
   (map_get (sessions g) sid = Some s \<longrightarrow>
      (\<exists>room. map_get (rooms (gateway_step cfg g (Event sid (JoinRoom roomId username) now)))
                 roomId = Some room \<and> map_has (users room) sid \<and>
               (\<not> map_has (rooms g) roomId \<longrightarrow> map_size (users room) = 1))) \<and>
   (\<forall>room. map_get (sessions g) sid = Some s \<and> currentRoom s = Some cr \<and> cr \<noteq> [] \<and>
      currentUser s = Some u \<and> map_get (rooms g) cr = Some room \<and>
      map_size (users (removeUser room sid)) = 0 \<longrightarrow>
      \<not> map_has (rooms (gateway_step cfg g (Event sid Disconnect now))) cr)"
proof -
  let ?g = "foldl (gateway_step cfg) gateway0 ins"
  let ?lc = "last_user_count cfg gateway0 Map.empty ins"
  have start: "\<forall>rid n. user_count gateway0 rid = Some n \<longrightarrow> Map.empty rid = Some n \<and> 0 < n"
    "\<forall>rid. user_count gateway0 rid = None \<longrightarrow>
       (Map.empty :: string \<rightharpoonup> nat) rid = None \<or> (Map.empty :: string \<rightharpoonup> nat) rid = Some 0"
    by (simp_all add: user_count_def gateway0_def map_get_def)
  note run = count_inv_run [OF start, of cfg ins]
  have some: "?lc rid = Some n \<and> 0 < n" if "user_count ?g rid = Some n" for n
    using run that by blast
  have none: "?lc rid = None \<or> ?lc rid = Some 0" if "user_count ?g rid = None"
    using run that by blast
  have iff: "map_has (rooms ?g) rid \<longleftrightarrow> (\<exists>n. ?lc rid = Some n \<and> 0 < n)"
  proof (cases "user_count ?g rid")
    case None
    then have "\<not> map_has (rooms ?g) rid" by (simp add: user_count_def map_has_get)
    with none [OF None] show ?thesis by auto
  next
    case (Some n)
    then have "map_has (rooms ?g) rid" by (auto simp: user_count_def map_has_get)
    with some [OF Some] show ?thesis by auto
  qed
  have present: "0 < map_size (users room) \<and> ?lc rid = Some (map_size (users room))"
    if "map_get (rooms ?g) rid = Some room" for room
    using some [of "map_size (users room)"] that by (simp add: user_count_def)
  from iff present join_step disconnect_step show ?thesis by blast
qed

theorem room_present_iff_users_witness:
  "map_has (rooms (foldl (gateway_step \<lparr>roomHistoryLimit = 1000, chatMessageLimit = 100\<rparr>) gateway0
     [Connect ''a'', Event ''a'' (JoinRoom ''R'' (Some ''Alice'')) 1])) ''R'' \<and>
   \<not> map_has (rooms (foldl (gateway_step \<lparr>roomHistoryLimit = 1000, chatMessageLimit = 100\<rparr>) gateway0
     [Connect ''a'', Event ''a'' (JoinRoom ''R'' (Some ''Alice'')) 1,
      Event ''a'' Disconnect 2])) ''R'' \<and>
   \<not> map_has (rooms (gateway_step \<lparr>roomHistoryLimit = 1000, chatMessageLimit = 100\<rparr>
     \<lparr> rooms = [(''R'', (Room ''R'' 1)
                 \<lparr>users := [(''a'', \<lparr> user_id = ''a'', user_username = ''Alice'',
                     user_color = ''#FF6B6B'', user_joinedAt = 1, user_cursor = (0, 0) \<rparr>)]\<rparr>)],
       sessions = [(''a'', \<lparr> currentRoom = Some ''R'',
                     currentUser = Some \<lparr> user_id = ''a'', user_username = ''Alice'',
                       user_color = ''#FF6B6B'', user_joinedAt = 1, user_cursor = (0, 0) \<rparr> \<rparr>)] \<rparr>
     (Event ''a'' Disconnect 2))) ''R''"
proof -
  let ?cfg = "\<lparr>roomHistoryLimit = 1000, chatMessageLimit = 100\<rparr>"
  let ?tr = "[Connect ''a'', Event ''a'' (JoinRoom ''R'' (Some ''Alice'')) 1]"
  let ?tr2 = "[Connect ''a'', Event ''a'' (JoinRoom ''R'' (Some ''Alice'')) 1,
      Event ''a'' Disconnect 2]"
  let ?u = "\<lparr> user_id = ''a'', user_username = ''Alice'',
                     user_color = ''#FF6B6B'', user_joinedAt = 1, user_cursor = (0, 0) \<rparr>"
  let ?room = "(Room ''R'' 1 :: server_room) \<lparr>users := [(''a'', ?u)]\<rparr>"
  let ?s = "\<lparr> currentRoom = Some ''R'', currentUser = Some ?u \<rparr>"
  let ?g = "\<lparr> rooms = [(''R'', ?room)], sessions = [(''a'', ?s)] \<rparr>"
  have c1: "last_user_count ?cfg gateway0 Map.empty ?tr ''R'' = Some 1"
    by (simp add: gateway0_def on_join_room_def getOrCreateRoom_def addUser_def Room_def
        map_has_def map_get_def map_set_def map_delete_def map_size_def Let_def
        removeUser_def on_disconnect_def truthy_def AList.delete_eq)
  have c2: "last_user_count ?cfg gateway0 Map.empty ?tr2 ''R'' = Some 0"
    by (simp add: gateway0_def on_join_room_def getOrCreateRoom_def addUser_def Room_def
        map_has_def map_get_def map_set_def map_delete_def map_size_def Let_def
        removeUser_def on_disconnect_def truthy_def AList.delete_eq)
  have a: "map_has (rooms (foldl (gateway_step ?cfg) gateway0 ?tr)) ''R''"
    using room_present_iff_users [where cfg = ?cfg and ins = ?tr and rid = "''R''", THEN conjunct1]
    unfolding c1 by simp
  have b: "\<not> map_has (rooms (foldl (gateway_step ?cfg) gateway0 ?tr2)) ''R''"
    using room_present_iff_users [where cfg = ?cfg and ins = ?tr2 and rid = "''R''", THEN conjunct1]
    unfolding c2 by simp
  have h: "map_get (sessions ?g) ''a'' = Some ?s \<and> currentRoom ?s = Some ''R'' \<and> ''R'' \<noteq> [] \<and>
      currentUser ?s = Some ?u \<and> map_get (rooms ?g) ''R'' = Some ?room \<and>
      map_size (users (removeUser ?room ''a'')) = 0"
    by (simp add: map_get_def removeUser_def map_delete_def map_size_def AList.delete_eq)
  have c: "\<not> map_has (rooms (gateway_step ?cfg ?g (Event ''a'' Disconnect 2))) ''R''"
    using room_present_iff_users [where cfg = ?cfg and g = ?g and sid = "''a''" and s = ?s
        and cr = "''R''" and u = ?u and now = 2,
        THEN conjunct2, THEN conjunct2, THEN conjunct2, rule_format, OF h] .
  from a b c show ?thesis by blast
qed

end
